theory Spec2Isabelle
  imports Complex_Main "HOL-Library.AList"
begin

section \<open>The race engine of pi-lane (pilane/race/engine.py)\<close>

text \<open>
  A shallow embedding of \<^verbatim>\<open>RaceEngine\<close>. Conventions:
  \<^item> Python \<^verbatim>\<open>int\<close> is \<^typ>\<open>int\<close>; Python \<^verbatim>\<open>float\<close> (clock readings, power,
    fuel, track position) is idealised as \<^typ>\<open>real\<close>, so rounding, infinities and NaN are
    outside the model;
  \<^item> the \<^verbatim>\<open>lanes\<close> dict is an association list in insertion order (iteration order of
    a Python dict), written with \<^const>\<open>AList.update\<close> and read with \<^const>\<open>map_of\<close>;
  \<^item> every method takes the engine and returns the engine it leaves behind; a method that
    can raise also returns the exception, together with the engine as it is at the raise;
  \<^item> \<^verbatim>\<open>asyncio.get_event_loop().time()\<close> is a parameter \<open>now\<close> of the method reading it;
  \<^item> \<^verbatim>\<open>manager.broadcast_to_race\<close> appends the message to the engine's \<open>events\<close> trace
    (the wall-clock \<^verbatim>\<open>timestamp\<close> of the envelope is left out);
  \<^item> each coroutine runs to completion: interleavings at \<^verbatim>\<open>await\<close> points and the
    sleeps of the countdown and of the tick loop are not modelled.
\<close>

subsection \<open>Data model\<close>

datatype race_engine_state = IDLE | COUNTDOWN | RUNNING | PAUSED | FINISHED

datatype error = RuntimeError string | ZeroDivisionError

record lane_state =
  lane_number :: int
  car_id :: int
  power_level :: real
  current_lap :: int
  lap_times_ms :: "int list"
  best_lap_time_ms :: "int option"
  total_time_ms :: int
  last_lap_timestamp :: real
  estimated_position :: real
  fuel_level :: real
  finished :: bool
  finish_position :: "int option"

record race_state =
  race_id :: int
  track_id :: int
  mode :: string
  target_laps :: int
  time_limit_seconds :: "int option"
  fuel_simulation_enabled :: bool
  lanes :: "(int \<times> lane_state) list"
  state :: race_engine_state
  start_time :: "real option"
  elapsed_time_ms :: int
  countdown_remaining :: int
  finish_order :: "int list"

text \<open>A participant is the dict \<^verbatim>\<open>{"lane": ..., "car_id": ...}\<close> read by \<^verbatim>\<open>setup_race\<close>.\<close>

record participant =
  p_lane :: int
  p_car_id :: int

text \<open>The payloads of the broadcast messages.\<close>

record participant_snapshot =
  ps_lane :: int
  ps_car_id :: int
  ps_current_lap :: int
  ps_best_lap_time_ms :: "int option"
  ps_total_time_ms :: int
  ps_fuel_level :: real
  ps_estimated_position :: real
  ps_finished :: bool
  ps_finish_position :: "int option"

record lane_result =
  res_car_id :: int
  res_laps :: int
  res_total_time_ms :: int
  res_best_lap_ms :: "int option"
  res_position :: "int option"

datatype event =
    RaceCountdown int
  | RaceStarted int
  | RaceLap int int int int int bool
  | RaceStateMsg int race_engine_state int "participant_snapshot list"
  | RaceFinished int "int list" "(int \<times> lane_result) list"
  | RaceCancelled int

text \<open>
  \<^verbatim>\<open>RaceLap race_id car_id lane lap_number lap_time_ms is_best_lap\<close>,
  \<^verbatim>\<open>RaceStateMsg race_id state elapsed_time_ms participants\<close>,
  \<^verbatim>\<open>RaceFinished race_id finish_order results\<close>.
\<close>

datatype task = Pending | Cancelled

record engine =
  current_race :: "race_state option"
  tick_task :: "task option"
  events :: "(int \<times> event) list"

text \<open>\<^verbatim>\<open>settings.sim_base_lap_time_ms\<close> is the one setting the engine reads.\<close>

record settings =
  sim_base_lap_time_ms :: int

subsection \<open>Python primitives\<close>

definition py_int :: "real \<Rightarrow> int" where
  "py_int x = (if 0 \<le> x then \<lfloor>x\<rfloor> else \<lceil>x\<rceil>)"

definition py_fmod :: "real \<Rightarrow> real \<Rightarrow> real" where
  "py_fmod a b = a - b * of_int \<lfloor>a / b\<rfloor>"

definition broadcast_to_race :: "engine \<Rightarrow> int \<Rightarrow> event \<Rightarrow> engine" where
  "broadcast_to_race e rid msg = e\<lparr>events := events e @ [(rid, msg)]\<rparr>"

definition cancel :: "task option \<Rightarrow> task option" where
  "cancel t = (case t of None \<Rightarrow> None | Some _ \<Rightarrow> Some Cancelled)"

subsection \<open>Construction and setup\<close>

definition init_engine :: engine where
  "init_engine = \<lparr>current_race = None, tick_task = None, events = []\<rparr>"

definition new_lane :: "int \<Rightarrow> int \<Rightarrow> lane_state" where
  "new_lane n c =
     \<lparr>lane_number = n, car_id = c, power_level = 0, current_lap = 0, lap_times_ms = [],
      best_lap_time_ms = None, total_time_ms = 0, last_lap_timestamp = 0,
      estimated_position = 0, fuel_level = 100, finished = False, finish_position = None\<rparr>"

fun build_lanes :: "participant list \<Rightarrow> (int \<times> lane_state) list \<Rightarrow> (int \<times> lane_state) list" where
  "build_lanes [] lns = lns"
| "build_lanes (p # ps) lns =
     build_lanes ps (AList.update (p_lane p) (new_lane (p_lane p) (p_car_id p)) lns)"

definition new_race ::
  "int \<Rightarrow> int \<Rightarrow> string \<Rightarrow> int \<Rightarrow> int option \<Rightarrow> bool \<Rightarrow> (int \<times> lane_state) list \<Rightarrow> race_state" where
  "new_race rid tid md tgt tlim fuel ls =
     \<lparr>race_id = rid, track_id = tid, mode = md, target_laps = tgt, time_limit_seconds = tlim,
      fuel_simulation_enabled = fuel, lanes = ls, state = IDLE, start_time = None,
      elapsed_time_ms = 0, countdown_remaining = 5, finish_order = []\<rparr>"

definition is_running :: "engine \<Rightarrow> bool" where
  "is_running e = (case current_race e of None \<Rightarrow> False | Some r \<Rightarrow> state r = RUNNING)"

definition setup_race ::
  "engine \<Rightarrow> int \<Rightarrow> int \<Rightarrow> participant list \<Rightarrow> string \<Rightarrow> int \<Rightarrow> int option \<Rightarrow> bool
     \<Rightarrow> (error + race_state) \<times> engine" where
  "setup_race e rid tid ps md tgt tlim fuel =
     (if is_running e
      then (Inl (RuntimeError ''Cannot setup new race while another is running''), e)
      else let r = new_race rid tid md tgt tlim fuel (build_lanes ps [])
           in (Inr r, e\<lparr>current_race := Some r\<rparr>))"

subsection \<open>Broadcasting the state, finishing\<close>

definition snapshot :: "int \<times> lane_state \<Rightarrow> participant_snapshot" where
  "snapshot kl =
     \<lparr>ps_lane = fst kl, ps_car_id = car_id (snd kl), ps_current_lap = current_lap (snd kl),
      ps_best_lap_time_ms = best_lap_time_ms (snd kl), ps_total_time_ms = total_time_ms (snd kl),
      ps_fuel_level = fuel_level (snd kl), ps_estimated_position = estimated_position (snd kl),
      ps_finished = finished (snd kl), ps_finish_position = finish_position (snd kl)\<rparr>"

definition broadcast_state :: "engine \<Rightarrow> engine" where
  "broadcast_state e =
     (case current_race e of
        None \<Rightarrow> e
      | Some r \<Rightarrow>
          broadcast_to_race e (race_id r)
            (RaceStateMsg (race_id r) (state r) (elapsed_time_ms r) (map snapshot (lanes r))))"

text \<open>
  The loop of \<^verbatim>\<open>_finish_race\<close> over \<^verbatim>\<open>lanes.values()\<close>: every lane not yet finished
  is marked finished, positioned after the lanes already in \<^verbatim>\<open>finish_order\<close>, and
  appended to it.
\<close>

fun finish_lanes :: "(int \<times> lane_state) list \<Rightarrow> int list \<Rightarrow> (int \<times> lane_state) list \<times> int list" where
  "finish_lanes [] fo = ([], fo)"
| "finish_lanes ((k, l) # rest) fo =
     (if \<not> finished l
      then let l' = l\<lparr>finished := True, finish_position := Some (int (length fo) + 1)\<rparr>;
               (rest', fo') = finish_lanes rest (fo @ [lane_number l])
           in ((k, l') # rest', fo')
      else let (rest', fo') = finish_lanes rest fo in ((k, l) # rest', fo'))"

definition result_of :: "int \<times> lane_state \<Rightarrow> int \<times> lane_result" where
  "result_of kl =
     (fst kl, \<lparr>res_car_id = car_id (snd kl), res_laps = current_lap (snd kl),
               res_total_time_ms = total_time_ms (snd kl),
               res_best_lap_ms = best_lap_time_ms (snd kl),
               res_position = finish_position (snd kl)\<rparr>)"

definition finish_race :: "engine \<Rightarrow> engine" where
  "finish_race e =
     (let e1 = e\<lparr>tick_task := cancel (tick_task e)\<rparr>
      in case current_race e1 of
           None \<Rightarrow> e1
         | Some r \<Rightarrow>
             let (ls, fo) = finish_lanes (lanes r) (finish_order r);
                 r' = r\<lparr>state := FINISHED, lanes := ls, finish_order := fo\<rparr>
             in broadcast_to_race (e1\<lparr>current_race := Some r'\<rparr>) (race_id r')
                  (RaceFinished (race_id r') fo (map result_of ls)))"

subsection \<open>Countdown and start\<close>

fun set_timestamps :: "real \<Rightarrow> (int \<times> lane_state) list \<Rightarrow> (int \<times> lane_state) list" where
  "set_timestamps t [] = []"
| "set_timestamps t ((k, l) # rest) = (k, l\<lparr>last_lap_timestamp := t\<rparr>) # set_timestamps t rest"

definition start_race :: "engine \<Rightarrow> real \<Rightarrow> engine" where
  "start_race e now =
     (case current_race e of
        None \<Rightarrow> e
      | Some r \<Rightarrow>
          let r' = r\<lparr>state := RUNNING, start_time := Some now,
                     lanes := set_timestamps now (lanes r)\<rparr>
          in broadcast_to_race (e\<lparr>current_race := Some r', tick_task := Some Pending\<rparr>)
               (race_id r') (RaceStarted (race_id r')))"

definition countdown_step :: "int \<Rightarrow> engine \<Rightarrow> engine" where
  "countdown_step i e =
     (case current_race e of
        None \<Rightarrow> e
      | Some r \<Rightarrow>
          let e1 = broadcast_state (e\<lparr>current_race := Some (r\<lparr>countdown_remaining := i\<rparr>)\<rparr>)
          in broadcast_to_race e1 (race_id r) (RaceCountdown i))"

definition start_countdown :: "engine \<Rightarrow> real \<Rightarrow> error option \<times> engine" where
  "start_countdown e now =
     (case current_race e of
        None \<Rightarrow> (Some (RuntimeError ''No race to start''), e)
      | Some r \<Rightarrow>
          let e1 = e\<lparr>current_race := Some (r\<lparr>state := COUNTDOWN, countdown_remaining := 5\<rparr>)\<rparr>;
              e2 = fold countdown_step [5, 4, 3, 2, 1] e1
          in (None, start_race e2 now))"

subsection \<open>The tick\<close>

definition update_position_estimate :: "settings \<Rightarrow> lane_state \<Rightarrow> real \<Rightarrow> error + lane_state" where
  "update_position_estimate cfg lane current_time =
     (if last_lap_timestamp lane = 0 then Inr lane
      else let time_since_lap = current_time - last_lap_timestamp lane;
               base_lap_time_s = real_of_int (sim_base_lap_time_ms cfg) / 1000
           in if power_level lane > 0
              then let speed_factor = power_level lane / 100
                   in if base_lap_time_s = 0 then Inl ZeroDivisionError
                      else Inr (lane\<lparr>estimated_position :=
                                  py_fmod ((time_since_lap * speed_factor) / base_lap_time_s) 1\<rparr>)
              else Inr lane)"

text \<open>
  The loop of \<^verbatim>\<open>_tick\<close> over \<^verbatim>\<open>lanes.values()\<close>. An exception leaves the lanes
  before the raising one updated and the others as they were.
\<close>

fun tick_lanes ::
  "settings \<Rightarrow> bool \<Rightarrow> real \<Rightarrow> (int \<times> lane_state) list \<Rightarrow> error option \<times> (int \<times> lane_state) list" where
  "tick_lanes cfg fuel now [] = (None, [])"
| "tick_lanes cfg fuel now ((k, l) # rest) =
     (if \<not> finished l
      then (case update_position_estimate cfg l now of
              Inl err \<Rightarrow> (Some err, (k, l) # rest)
            | Inr l1 \<Rightarrow>
                let l2 = (if fuel
                          then l1\<lparr>fuel_level := max 0 (fuel_level l1 - power_level l1 * 0.001)\<rparr>
                          else l1);
                    (err, rest') = tick_lanes cfg fuel now rest
                in (err, (k, l2) # rest'))
      else let (err, rest') = tick_lanes cfg fuel now rest in (err, (k, l) # rest'))"

definition time_limit_reached :: "race_state \<Rightarrow> bool" where
  "time_limit_reached r =
     (case time_limit_seconds r of
        None \<Rightarrow> False
      | Some tlim \<Rightarrow> tlim \<noteq> 0 \<and> elapsed_time_ms r \<ge> tlim * 1000)"

definition tick :: "settings \<Rightarrow> engine \<Rightarrow> real \<Rightarrow> error option \<times> engine" where
  "tick cfg e current_time =
     (case current_race e of
        None \<Rightarrow> (None, e)
      | Some r \<Rightarrow>
          (case start_time r of
             None \<Rightarrow> (None, e)
           | Some st \<Rightarrow>
               if st = 0 then (None, e)
               else
                 let r1 = r\<lparr>elapsed_time_ms := py_int ((current_time - st) * 1000)\<rparr>;
                     (err, ls) = tick_lanes cfg (fuel_simulation_enabled r1) current_time (lanes r1);
                     r2 = r1\<lparr>lanes := ls\<rparr>;
                     e2 = e\<lparr>current_race := Some r2\<rparr>
                 in (case err of
                       Some x \<Rightarrow> (Some x, e2)
                     | None \<Rightarrow>
                         if time_limit_reached r2 then (None, finish_race e2)
                         else if py_int (current_time * 10) mod 5 = 0
                              then (None, broadcast_state e2)
                              else (None, e2))))"

text \<open>One iteration of \<^verbatim>\<open>_race_tick_loop\<close>: the loop condition, then the tick.\<close>

definition race_tick_iteration :: "settings \<Rightarrow> engine \<Rightarrow> real \<Rightarrow> error option \<times> engine" where
  "race_tick_iteration cfg e now = (if is_running e then tick cfg e now else (None, e))"

subsection \<open>Recording a lap\<close>

text \<open>Lines 231 and 235: the lap time of a crossing, and the debounce test.\<close>

definition lap_time_of :: "lane_state \<Rightarrow> real \<Rightarrow> int" where
  "lap_time_of ls current_time = py_int ((current_time - last_lap_timestamp ls) * 1000)"

definition debounced :: "lane_state \<Rightarrow> real \<Rightarrow> bool" where
  "debounced ls current_time = (current_lap ls = 0 \<and> lap_time_of ls current_time < 1000)"

text \<open>Lines 244 to 247: is this lap the best so far.\<close>

definition is_best :: "lane_state \<Rightarrow> int \<Rightarrow> bool" where
  "is_best ls lap_time_ms =
     (case best_lap_time_ms ls of None \<Rightarrow> True | Some b \<Rightarrow> lap_time_ms < b)"

text \<open>Lines 232 and 238 to 247: what a counted lap does to the lane.\<close>

definition count_lap :: "lane_state \<Rightarrow> real \<Rightarrow> lane_state" where
  "count_lap ls current_time =
     (let lap_time_ms = lap_time_of ls current_time;
          ls1 = ls\<lparr>last_lap_timestamp := current_time\<rparr>;
          ls2 = ls1\<lparr>current_lap := current_lap ls1 + 1,
                    lap_times_ms := lap_times_ms ls1 @ [lap_time_ms],
                    total_time_ms := total_time_ms ls1 + lap_time_ms,
                    estimated_position := 0\<rparr>
      in if is_best ls2 lap_time_ms then ls2\<lparr>best_lap_time_ms := Some lap_time_ms\<rparr> else ls2)"

definition all_finished :: "(int \<times> lane_state) list \<Rightarrow> bool" where
  "all_finished ls = list_all (\<lambda>kl. finished (snd kl)) ls"

text \<open>Lines 264 to 274: the finish check in lap mode.\<close>

definition check_finished :: "engine \<Rightarrow> race_state \<Rightarrow> int \<Rightarrow> lane_state \<Rightarrow> engine" where
  "check_finished e r lane ls =
     (if mode r = ''race_laps'' \<and> current_lap ls \<ge> target_laps r
      then let ls' = ls\<lparr>finished := True,
                        finish_position := Some (int (length (finish_order r)) + 1)\<rparr>;
               r' = r\<lparr>lanes := AList.update lane ls' (lanes r),
                      finish_order := finish_order r @ [lane]\<rparr>;
               e' = e\<lparr>current_race := Some r'\<rparr>
           in if all_finished (lanes r') then finish_race e' else e'
      else e)"

definition record_lap :: "engine \<Rightarrow> int \<Rightarrow> real \<Rightarrow> engine" where
  "record_lap e lane current_time =
     (case current_race e of
        None \<Rightarrow> e
      | Some r \<Rightarrow>
          if state r \<noteq> RUNNING then e
          else
            (case map_of (lanes r) lane of
               None \<Rightarrow> e
             | Some lane_state \<Rightarrow>
                 if finished lane_state then e
                 else if debounced lane_state current_time
                 then e\<lparr>current_race := Some (r\<lparr>lanes :=
                         AList.update lane (lane_state\<lparr>last_lap_timestamp := current_time\<rparr>)
                           (lanes r)\<rparr>)\<rparr>
                 else
                   let lap_time_ms = lap_time_of lane_state current_time;
                       best = is_best lane_state lap_time_ms;
                       ls = count_lap lane_state current_time;
                       r1 = r\<lparr>lanes := AList.update lane ls (lanes r)\<rparr>;
                       e1 = broadcast_to_race (e\<lparr>current_race := Some r1\<rparr>) (race_id r1)
                              (RaceLap (race_id r1) (car_id ls) lane (current_lap ls)
                                 lap_time_ms best)
                   in check_finished e1 r1 lane ls))"

subsection \<open>Power, pause, resume, stop\<close>

definition set_power :: "engine \<Rightarrow> int \<Rightarrow> real \<Rightarrow> engine" where
  "set_power e lane pl =
     (case current_race e of
        None \<Rightarrow> e
      | Some r \<Rightarrow>
          (case map_of (lanes r) lane of
             None \<Rightarrow> e
           | Some ls \<Rightarrow>
               e\<lparr>current_race := Some (r\<lparr>lanes :=
                   AList.update lane (ls\<lparr>power_level := max 0 (min 100 pl)\<rparr>) (lanes r)\<rparr>)\<rparr>))"

definition pause :: "engine \<Rightarrow> engine" where
  "pause e =
     (case current_race e of
        None \<Rightarrow> e
      | Some r \<Rightarrow>
          if state r = RUNNING
          then broadcast_state
                 (e\<lparr>current_race := Some (r\<lparr>state := PAUSED\<rparr>), tick_task := cancel (tick_task e)\<rparr>)
          else e)"

definition resume :: "engine \<Rightarrow> engine" where
  "resume e =
     (case current_race e of
        None \<Rightarrow> e
      | Some r \<Rightarrow>
          if state r = PAUSED
          then broadcast_state
                 (e\<lparr>current_race := Some (r\<lparr>state := RUNNING\<rparr>), tick_task := Some Pending\<rparr>)
          else e)"

definition stop :: "engine \<Rightarrow> engine" where
  "stop e =
     (let e1 = e\<lparr>tick_task := cancel (tick_task e)\<rparr>
      in case current_race e1 of
           None \<Rightarrow> e1
         | Some r \<Rightarrow>
             broadcast_to_race (e1\<lparr>current_race := Some (r\<lparr>state := FINISHED\<rparr>)\<rparr>) (race_id r)
               (RaceCancelled (race_id r)))"

subsection \<open>Sequences of calls\<close>

text \<open>
  The calls the engine receives: its public methods, and the iterations of its tick loop.
  A call that raises leaves the engine as it is at the raise, and later calls go on from
  there.
\<close>

datatype call =
    SetupRace int int "participant list" string int "int option" bool
  | StartCountdown real
  | Tick real
  | RecordLap int real
  | SetPower int real
  | Pause
  | Resume
  | Stop

fun exec :: "settings \<Rightarrow> call \<Rightarrow> engine \<Rightarrow> engine" where
  "exec cfg (SetupRace rid tid ps md tgt tlim fuel) e = snd (setup_race e rid tid ps md tgt tlim fuel)"
| "exec cfg (StartCountdown now) e = snd (start_countdown e now)"
| "exec cfg (Tick now) e = snd (race_tick_iteration cfg e now)"
| "exec cfg (RecordLap lane now) e = record_lap e lane now"
| "exec cfg (SetPower lane pl) e = set_power e lane pl"
| "exec cfg Pause e = pause e"
| "exec cfg Resume e = resume e"
| "exec cfg Stop e = stop e"

definition run :: "settings \<Rightarrow> call list \<Rightarrow> engine \<Rightarrow> engine" where
  "run cfg cs e = fold (exec cfg) cs e"

subsection \<open>The lanes of the engine, and what holds of them\<close>

text \<open>The lanes of the current race (none without a race), and one lane by its number.\<close>

definition lanes_of :: "engine \<Rightarrow> (int \<times> lane_state) list" where
  "lanes_of e = (case current_race e of None \<Rightarrow> [] | Some r \<Rightarrow> lanes r)"

definition lane_of :: "engine \<Rightarrow> int \<Rightarrow> lane_state option" where
  "lane_of e k = map_of (lanes_of e) k"

text \<open>
  The lap record of a lane is consistent when the lap counter is the number of recorded lap
  times, the total is their sum, and the best lap is their minimum (none before the first lap).
\<close>

definition laps_consistent :: "lane_state \<Rightarrow> bool" where
  "laps_consistent l =
     (current_lap l = int (length (lap_times_ms l)) \<and>
      total_time_ms l = sum_list (lap_times_ms l) \<and>
      best_lap_time_ms l =
        (if lap_times_ms l = [] then None else Some (Min (set (lap_times_ms l)))))"

text \<open>
  What is shown of every lane of every engine reached by calls: power within 0 and 100,
  position within 0 (included) and 1 (excluded), and a consistent lap record.
\<close>

definition lane_ok :: "lane_state \<Rightarrow> bool" where
  "lane_ok l =
     (0 \<le> power_level l \<and> power_level l \<le> 100 \<and>
      0 \<le> estimated_position l \<and> estimated_position l < 1 \<and>
      laps_consistent l)"

definition engine_ok :: "engine \<Rightarrow> bool" where
  "engine_ok e = list_all (\<lambda>kl. lane_ok (snd kl)) (lanes_of e)"

text \<open>The number of finished lanes; it is the length of \<^verbatim>\<open>finish_order\<close> in every reached engine.\<close>

definition finished_count :: "(int \<times> lane_state) list \<Rightarrow> nat" where
  "finished_count al = length (filter (\<lambda>kl. finished (snd kl)) al)"

definition order_ok :: "engine \<Rightarrow> bool" where
  "order_ok e =
     (case current_race e of
        None \<Rightarrow> True
      | Some r \<Rightarrow> length (finish_order r) = finished_count (lanes r))"

definition power_in_range :: "engine \<Rightarrow> bool" where
  "power_in_range e =
     list_all (\<lambda>kl. 0 \<le> power_level (snd kl) \<and> power_level (snd kl) \<le> 100) (lanes_of e)"

subsection \<open>Sequences of crossings and of power commands\<close>

text \<open>
  A crossing is valid when \<^verbatim>\<open>record_lap\<close> counts it: the race is running, the lane is
  known and not finished, and the crossing is not debounced.
\<close>

definition valid_crossing :: "engine \<Rightarrow> int \<Rightarrow> real \<Rightarrow> bool" where
  "valid_crossing e lane now =
     (case current_race e of
        None \<Rightarrow> False
      | Some r \<Rightarrow>
          state r = RUNNING \<and>
          (case map_of (lanes r) lane of
             None \<Rightarrow> False
           | Some ls \<Rightarrow> \<not> finished ls \<and> \<not> debounced ls now))"

fun record_laps :: "engine \<Rightarrow> int \<Rightarrow> real list \<Rightarrow> engine" where
  "record_laps e lane [] = e"
| "record_laps e lane (t # ts) = record_laps (record_lap e lane t) lane ts"

fun count_valid :: "engine \<Rightarrow> int \<Rightarrow> real list \<Rightarrow> nat" where
  "count_valid e lane [] = 0"
| "count_valid e lane (t # ts) =
     (if valid_crossing e lane t then 1 else 0) + count_valid (record_lap e lane t) lane ts"

definition set_powers :: "engine \<Rightarrow> (int \<times> real) list \<Rightarrow> engine" where
  "set_powers e pcs = fold (\<lambda>lv e'. set_power e' (fst lv) (snd lv)) pcs e"

text \<open>The two outcomes of the finish check of lines 266 to 269.\<close>

definition finishing :: "race_state \<Rightarrow> lane_state \<Rightarrow> bool" where
  "finishing r ls = (mode r = ''race_laps'' \<and> target_laps r \<le> current_lap ls)"

definition finished_lane :: "race_state \<Rightarrow> lane_state \<Rightarrow> lane_state" where
  "finished_lane r ls =
     ls\<lparr>finished := True, finish_position := Some (int (length (finish_order r)) + 1)\<rparr>"

subsection \<open>The position estimate in the words of the specification\<close>

text \<open>
  The dead-reckoning formula as the specification writes it,
  \<^verbatim>\<open>((now - lastLapTimestamp) * (powerLevel/100)) / nominalLapSeconds, mod 1.0\<close>, and the
  position a tick leaves in a lane: the formula for an unfinished lane with a nonzero
  timestamp and positive power, the old position otherwise.
\<close>

definition dead_reckoning :: "settings \<Rightarrow> lane_state \<Rightarrow> real \<Rightarrow> real" where
  "dead_reckoning cfg l now =
     py_fmod (((now - last_lap_timestamp l) * (power_level l / 100)) /
              (real_of_int (sim_base_lap_time_ms cfg) / 1000)) 1"

definition tick_position :: "settings \<Rightarrow> real \<Rightarrow> lane_state \<Rightarrow> real" where
  "tick_position cfg now l =
     (if \<not> finished l \<and> last_lap_timestamp l \<noteq> 0 \<and> power_level l > 0
      then dead_reckoning cfg l now else estimated_position l)"

subsection \<open>A concrete race\<close>

text \<open>
  Two lanes (lane 1 with car 10, lane 2 with car 20) in lap mode, set up on a new engine
  with the given target, then counted down and started at clock reading \<open>s\<close>.
\<close>

definition two_lane_race :: "int \<Rightarrow> engine" where
  "two_lane_race tgt =
     snd (setup_race init_engine 1 1
            [\<lparr>p_lane = 1, p_car_id = 10\<rparr>, \<lparr>p_lane = 2, p_car_id = 20\<rparr>]
            ''race_laps'' tgt None False)"

definition started_race :: "int \<Rightarrow> real \<Rightarrow> engine" where
  "started_race tgt s = snd (start_countdown (two_lane_race tgt) s)"

text \<open>The same race with a time limit of 60 s, started at clock reading 100.\<close>

definition timed_race :: engine where
  "timed_race =
     snd (start_countdown
            (snd (setup_race init_engine 1 1
                    [\<lparr>p_lane = 1, p_car_id = 10\<rparr>, \<lparr>p_lane = 2, p_car_id = 20\<rparr>]
                    ''race_laps'' 3 (Some 60) False))
            100)"

section \<open>Auxiliary lemmas\<close>

lemma events_broadcast_to_race [simp]:
  "events (broadcast_to_race e rid m) = events e @ [(rid, m)]"
  by (simp add: broadcast_to_race_def)

lemma current_race_broadcast_to_race [simp]:
  "current_race (broadcast_to_race e rid m) = current_race e"
  by (simp add: broadcast_to_race_def)

lemma tick_task_broadcast_to_race [simp]:
  "tick_task (broadcast_to_race e rid m) = tick_task e"
  by (simp add: broadcast_to_race_def)

lemma current_race_broadcast_state [simp]:
  "current_race (broadcast_state e) = current_race e"
  by (simp add: broadcast_state_def split: option.splits)

lemma finish_lanes_all_finished:
  "all_finished ls \<Longrightarrow> finish_lanes ls fo = (ls, fo)"
  by (induction ls arbitrary: fo) (auto simp: all_finished_def)

lemma list_all_update:
  "list_all Q al \<Longrightarrow> Q (k, v) \<Longrightarrow> list_all Q (AList.update k v al)"
  by (induction al) auto

lemma list_all_map_of:
  "list_all Q al \<Longrightarrow> map_of al k = Some v \<Longrightarrow> Q (k, v)"
  by (auto simp: list_all_iff dest: map_of_SomeD)

lemma update_fresh_key:
  "k \<notin> fst ` set al \<Longrightarrow> AList.update k v al = al @ [(k, v)]"
  by (induction al) auto

lemma find_snoc:
  "List.find P (xs @ [x]) = (case List.find P xs of None \<Rightarrow> (if P x then Some x else None) | Some y \<Rightarrow> Some y)"
  by (induction xs) auto

lemma build_lanes_snoc:
  "build_lanes (ps @ [p]) lns =
     AList.update (p_lane p) (new_lane (p_lane p) (p_car_id p)) (build_lanes ps lns)"
  by (induction ps arbitrary: lns) auto

lemma build_lanes_keys:
  "fst ` set (build_lanes ps lns) = p_lane ` set ps \<union> fst ` set lns"
  by (induction ps arbitrary: lns) (auto simp: AList.dom_update)

lemma build_lanes_distinct:
  "distinct (map fst lns) \<Longrightarrow> distinct (map fst (build_lanes ps lns))"
  by (induction ps arbitrary: lns) (auto simp: AList.distinct_update)

lemma build_lanes_map_of:
  "map_of (build_lanes ps lns) k =
     (case List.find (\<lambda>p. p_lane p = k) (rev ps) of
        None \<Rightarrow> map_of lns k
      | Some p \<Rightarrow> Some (new_lane k (p_car_id p)))"
proof (induction ps arbitrary: lns)
  case Nil
  show ?case by simp
next
  case (Cons p ps)
  show ?case
    by (simp add: Cons.IH find_snoc AList.update_conv' split: option.splits)
qed

lemma build_lanes_distinct_lanes:
  "distinct (map p_lane ps) \<Longrightarrow> p_lane ` set ps \<inter> fst ` set lns = {} \<Longrightarrow>
     build_lanes ps lns = lns @ map (\<lambda>p. (p_lane p, new_lane (p_lane p) (p_car_id p))) ps"
proof (induction ps arbitrary: lns)
  case Nil
  show ?case by simp
next
  case (Cons p ps)
  have k: "p_lane p \<notin> fst ` set lns" using Cons.prems(2) by auto
  have "build_lanes ps (lns @ [(p_lane p, new_lane (p_lane p) (p_car_id p))]) =
        (lns @ [(p_lane p, new_lane (p_lane p) (p_car_id p))]) @
          map (\<lambda>p. (p_lane p, new_lane (p_lane p) (p_car_id p))) ps"
    using Cons.prems by (intro Cons.IH) auto
  then show ?case by (simp add: update_fresh_key [OF k])
qed

lemma lanes_of_broadcast_to_race [simp]:
  "lanes_of (broadcast_to_race e rid m) = lanes_of e"
  by (simp add: lanes_of_def)

lemma lanes_of_broadcast_state [simp]:
  "lanes_of (broadcast_state e) = lanes_of e"
  by (simp add: lanes_of_def)

lemma lane_ok_new_lane: "lane_ok (new_lane k c)"
  by (simp add: lane_ok_def laps_consistent_def new_lane_def)

lemma lane_ok_timestamp [simp]: "lane_ok (l\<lparr>last_lap_timestamp := t\<rparr>) = lane_ok l"
  by (simp add: lane_ok_def laps_consistent_def)

lemma lane_ok_finished [simp]:
  "lane_ok (l\<lparr>finished := b, finish_position := p\<rparr>) = lane_ok l"
  by (simp add: lane_ok_def laps_consistent_def)

lemma lane_ok_fuel [simp]: "lane_ok (l\<lparr>fuel_level := f\<rparr>) = lane_ok l"
  by (simp add: lane_ok_def laps_consistent_def)

lemma py_fmod_one: "0 \<le> py_fmod x 1 \<and> py_fmod x 1 < 1"
  unfolding py_fmod_def by simp linarith

lemma lane_ok_update_position:
  "update_position_estimate cfg l now = Inr l1 \<Longrightarrow> lane_ok l \<Longrightarrow> lane_ok l1"
  using py_fmod_one
  by (auto simp: update_position_estimate_def Let_def lane_ok_def laps_consistent_def
        split: if_splits)

lemma lane_ok_update:
  "list_all (\<lambda>kl. lane_ok (snd kl)) al \<Longrightarrow> lane_ok v \<Longrightarrow>
     list_all (\<lambda>kl. lane_ok (snd kl)) (AList.update k v al)"
  by (induction al) auto

lemma engine_ok_current_race [simp]:
  "engine_ok (e\<lparr>current_race := Some r\<rparr>) = list_all (\<lambda>kl. lane_ok (snd kl)) (lanes r)"
  by (simp add: engine_ok_def lanes_of_def)

lemma engine_ok_tick_task [simp]: "engine_ok (e\<lparr>tick_task := t\<rparr>) = engine_ok e"
  by (simp add: engine_ok_def lanes_of_def)

lemma engine_okD:
  "engine_ok e \<Longrightarrow> current_race e = Some r \<Longrightarrow> list_all (\<lambda>kl. lane_ok (snd kl)) (lanes r)"
  by (simp add: engine_ok_def lanes_of_def)

lemma engine_okI:
  "current_race e = Some r \<Longrightarrow> list_all (\<lambda>kl. lane_ok (snd kl)) (lanes r) \<Longrightarrow> engine_ok e"
  by (simp add: engine_ok_def lanes_of_def)

lemma list_all_build_lanes:
  "list_all (\<lambda>kl. lane_ok (snd kl)) lns \<Longrightarrow> list_all (\<lambda>kl. lane_ok (snd kl)) (build_lanes ps lns)"
proof (induction ps arbitrary: lns)
  case Nil
  then show ?case by simp
next
  case (Cons p ps)
  show ?case
    using Cons.prems by (simp add: Cons.IH lane_ok_update lane_ok_new_lane)
qed

lemma list_all_set_timestamps:
  "list_all (\<lambda>kl. lane_ok (snd kl)) ls \<Longrightarrow> list_all (\<lambda>kl. lane_ok (snd kl)) (set_timestamps t ls)"
  by (induction t ls rule: set_timestamps.induct) auto

lemma list_all_finish_lanes:
  "list_all (\<lambda>kl. lane_ok (snd kl)) ls \<Longrightarrow>
     list_all (\<lambda>kl. lane_ok (snd kl)) (fst (finish_lanes ls fo))"
  by (induction ls fo rule: finish_lanes.induct) (auto simp: Let_def split: prod.splits)

lemma list_all_tick_lanes:
  "list_all (\<lambda>kl. lane_ok (snd kl)) ls \<Longrightarrow>
     list_all (\<lambda>kl. lane_ok (snd kl)) (snd (tick_lanes cfg fuel now ls))"
  by (induction cfg fuel now ls rule: tick_lanes.induct)
     (auto simp: Let_def lane_ok_update_position split: prod.splits sum.splits)

lemma engine_ok_broadcast_to_race [simp]:
  "engine_ok (broadcast_to_race e rid m) = engine_ok e"
  by (simp add: engine_ok_def)

lemma engine_ok_broadcast_state [simp]:
  "engine_ok (broadcast_state e) = engine_ok e"
  by (simp add: engine_ok_def)

lemma engine_ok_init: "engine_ok init_engine"
  by (simp add: engine_ok_def lanes_of_def init_engine_def)

lemma engine_ok_setup_race:
  "engine_ok e \<Longrightarrow> engine_ok (snd (setup_race e rid tid ps md tgt tlim fuel))"
  by (simp add: setup_race_def Let_def new_race_def list_all_build_lanes)

lemma engine_ok_finish_race: "engine_ok e \<Longrightarrow> engine_ok (finish_race e)"
proof (cases "current_race e")
  case None
  assume "engine_ok e"
  then show ?thesis using None by (simp add: finish_race_def Let_def)
next
  case (Some r)
  assume "engine_ok e"
  then have "list_all (\<lambda>kl. lane_ok (snd kl)) (fst (finish_lanes (lanes r) (finish_order r)))"
    using Some by (intro list_all_finish_lanes engine_okD)
  then show ?thesis
    using Some by (auto simp: finish_race_def Let_def split: prod.splits)
qed

lemma engine_ok_start_race: "engine_ok e \<Longrightarrow> engine_ok (start_race e now)"
  by (auto simp: start_race_def Let_def list_all_set_timestamps
        split: option.splits dest: engine_okD)

lemma engine_ok_countdown_step: "engine_ok e \<Longrightarrow> engine_ok (countdown_step i e)"
  by (auto simp: countdown_step_def Let_def split: option.splits dest: engine_okD)

lemma engine_ok_start_countdown: "engine_ok e \<Longrightarrow> engine_ok (snd (start_countdown e now))"
proof (cases "current_race e")
  case None
  assume "engine_ok e"
  then show ?thesis using None by (simp add: start_countdown_def)
next
  case (Some r)
  assume ok: "engine_ok e"
  have "engine_ok (e\<lparr>current_race := Some (r\<lparr>state := COUNTDOWN, countdown_remaining := 5\<rparr>)\<rparr>)"
    using engine_okD [OF ok Some] by simp
  then show ?thesis
    using Some
    by (simp add: start_countdown_def Let_def engine_ok_start_race engine_ok_countdown_step)
qed

lemma engine_ok_tick: "engine_ok e \<Longrightarrow> engine_ok (snd (tick cfg e now))"
proof -
  assume ok: "engine_ok e"
  show ?thesis
  proof (cases "current_race e")
    case None
    then show ?thesis using ok by (simp add: tick_def)
  next
    case (Some r)
    have l: "list_all (\<lambda>kl. lane_ok (snd kl)) (lanes r)"
      using ok Some by (simp add: engine_ok_def lanes_of_def)
    have l2: "\<And>f. list_all (\<lambda>kl. lane_ok (snd kl)) (snd (tick_lanes cfg f now (lanes r)))"
      using l by (rule list_all_tick_lanes)
    have e2: "\<And>r2. lanes r2 = snd (tick_lanes cfg (fuel_simulation_enabled r) now (lanes r))
                \<Longrightarrow> engine_ok (e\<lparr>current_race := Some r2\<rparr>)"
      using l2 by simp
    show ?thesis
      using ok Some e2
      by (auto simp: tick_def Let_def split: option.splits prod.splits
            simp del: engine_ok_current_race intro!: engine_ok_finish_race)
  qed
qed

lemma Min_snoc:
  "xs \<noteq> [] \<Longrightarrow> Min (set (xs @ [t])) = min t (Min (set xs))"
  by simp

lemma laps_consistent_count_lap:
  assumes "laps_consistent ls"
  shows "laps_consistent (count_lap ls now)"
proof (cases "lap_times_ms ls = []")
  case True
  then show ?thesis
    using assms
    by (simp add: laps_consistent_def count_lap_def Let_def is_best_def)
next
  case False
  define b where "b = Min (set (lap_times_ms ls))"
  have best: "best_lap_time_ms ls = Some b"
    using assms False by (simp add: laps_consistent_def b_def)
  have m: "Min (set (lap_times_ms ls @ [lap_time_of ls now])) = min (lap_time_of ls now) b"
    unfolding b_def by (rule Min_snoc [OF False])
  have c: "current_lap ls = int (length (lap_times_ms ls))"
    and t: "total_time_ms ls = sum_list (lap_times_ms ls)"
    using assms by (simp_all add: laps_consistent_def)
  show ?thesis
    unfolding laps_consistent_def count_lap_def Let_def is_best_def
    using best m c t by (simp add: min_def)
qed

lemma lane_ok_count_lap: "lane_ok ls \<Longrightarrow> lane_ok (count_lap ls now)"
  using laps_consistent_count_lap [of ls now]
  by (auto simp: lane_ok_def count_lap_def Let_def)

lemma engine_ok_check_finished:
  assumes "engine_ok e" "list_all (\<lambda>kl. lane_ok (snd kl)) (lanes r)" "lane_ok ls"
  shows "engine_ok (check_finished e r lane ls)"
proof -
  let ?ls = "ls\<lparr>finished := True, finish_position := Some (int (length (finish_order r)) + 1)\<rparr>"
  let ?r = "r\<lparr>lanes := AList.update lane ?ls (lanes r), finish_order := finish_order r @ [lane]\<rparr>"
  have "list_all (\<lambda>kl. lane_ok (snd kl)) (AList.update lane ?ls (lanes r))"
    using assms(2,3) by (intro lane_ok_update) simp_all
  then have a: "engine_ok (e\<lparr>current_race := Some ?r\<rparr>)" by simp
  have b: "engine_ok (finish_race (e\<lparr>current_race := Some ?r\<rparr>))"
    by (rule engine_ok_finish_race [OF a])
  show ?thesis
    unfolding check_finished_def Let_def using assms(1) a b by simp
qed

lemma engine_ok_record_lap: "engine_ok e \<Longrightarrow> engine_ok (record_lap e lane now)"
proof -
  assume ok: "engine_ok e"
  show ?thesis
  proof (cases "current_race e")
    case None
    then show ?thesis using ok by (simp add: record_lap_def)
  next
    case (Some r)
    have l: "list_all (\<lambda>kl. lane_ok (snd kl)) (lanes r)"
      using ok Some by (simp add: engine_ok_def lanes_of_def)
    show ?thesis
    proof (cases "map_of (lanes r) lane")
      case None
      then show ?thesis using ok Some by (simp add: record_lap_def)
    next
      case (Some ls)
      have lk: "lane_ok ls" using list_all_map_of [OF l Some] by simp
      have u: "\<And>v. lane_ok v \<Longrightarrow> list_all (\<lambda>kl. lane_ok (snd kl)) (AList.update lane v (lanes r))"
        using l by (rule lane_ok_update)
      have c: "lane_ok (count_lap ls now)" by (rule lane_ok_count_lap [OF lk])
      have "\<And>m. engine_ok (check_finished
               (broadcast_to_race
                  (e\<lparr>current_race := Some (r\<lparr>lanes := AList.update lane (count_lap ls now) (lanes r)\<rparr>)\<rparr>)
                  (race_id r) m)
               (r\<lparr>lanes := AList.update lane (count_lap ls now) (lanes r)\<rparr>) lane (count_lap ls now))"
        using u [OF c] c by (intro engine_ok_check_finished) simp_all
      then show ?thesis
        using ok \<open>current_race e = Some r\<close> Some lk u
        by (simp add: record_lap_def Let_def)
    qed
  qed
qed

lemma engine_ok_set_power: "engine_ok e \<Longrightarrow> engine_ok (set_power e lane pl)"
proof -
  assume ok: "engine_ok e"
  show ?thesis
  proof (cases "current_race e")
    case None
    then show ?thesis using ok by (simp add: set_power_def)
  next
    case (Some r)
    have l: "list_all (\<lambda>kl. lane_ok (snd kl)) (lanes r)"
      using ok Some by (simp add: engine_ok_def lanes_of_def)
    show ?thesis
    proof (cases "map_of (lanes r) lane")
      case None
      then show ?thesis using ok Some by (simp add: set_power_def)
    next
      case (Some ls)
      have lk: "lane_ok ls" using list_all_map_of [OF l Some] by simp
      have "lane_ok (ls\<lparr>power_level := max 0 (min 100 pl)\<rparr>)"
        using lk by (simp add: lane_ok_def laps_consistent_def)
      then show ?thesis
        using \<open>current_race e = Some r\<close> Some l
        by (simp add: set_power_def lane_ok_update)
    qed
  qed
qed

lemma engine_ok_pause: "engine_ok e \<Longrightarrow> engine_ok (pause e)"
  by (auto simp: pause_def split: option.splits dest: engine_okD)

lemma engine_ok_resume: "engine_ok e \<Longrightarrow> engine_ok (resume e)"
  by (auto simp: resume_def split: option.splits dest: engine_okD)

lemma engine_ok_stop: "engine_ok e \<Longrightarrow> engine_ok (stop e)"
  by (auto simp: stop_def Let_def split: option.splits dest: engine_okD)

lemma engine_ok_exec: "engine_ok e \<Longrightarrow> engine_ok (exec cfg c e)"
  by (cases c)
     (simp_all add: engine_ok_setup_race engine_ok_start_countdown engine_ok_tick
        engine_ok_record_lap engine_ok_set_power engine_ok_pause engine_ok_resume
        engine_ok_stop race_tick_iteration_def)

lemma engine_ok_run: "engine_ok e \<Longrightarrow> engine_ok (run cfg cs e)"
  unfolding run_def by (induction cs arbitrary: e) (simp_all add: engine_ok_exec)

lemma reachable_ok: "engine_ok (run cfg cs init_engine)"
  by (rule engine_ok_run [OF engine_ok_init])

lemma reachable_lane_ok:
  "lane_of (run cfg cs init_engine) k = Some l \<Longrightarrow> lane_ok l"
  using reachable_ok [of cfg cs] list_all_map_of
  unfolding engine_ok_def lane_of_def by fastforce

lemma count_lap_fields [simp]:
  "car_id (count_lap ls now) = car_id ls"
  "lane_number (count_lap ls now) = lane_number ls"
  "power_level (count_lap ls now) = power_level ls"
  "current_lap (count_lap ls now) = current_lap ls + 1"
  "lap_times_ms (count_lap ls now) = lap_times_ms ls @ [lap_time_of ls now]"
  "total_time_ms (count_lap ls now) = total_time_ms ls + lap_time_of ls now"
  "last_lap_timestamp (count_lap ls now) = now"
  "estimated_position (count_lap ls now) = 0"
  "fuel_level (count_lap ls now) = fuel_level ls"
  "finished (count_lap ls now) = finished ls"
  "finish_position (count_lap ls now) = finish_position ls"
  "best_lap_time_ms (count_lap ls now) =
     (if is_best ls (lap_time_of ls now) then Some (lap_time_of ls now) else best_lap_time_ms ls)"
  by (simp_all add: count_lap_def Let_def is_best_def)

lemma record_lap_debounced:
  assumes "current_race e = Some r" "state r = RUNNING" "map_of (lanes r) lane = Some ls"
    "\<not> finished ls" "debounced ls now"
  shows "record_lap e lane now =
           e\<lparr>current_race := Some (r\<lparr>lanes :=
               AList.update lane (ls\<lparr>last_lap_timestamp := now\<rparr>) (lanes r)\<rparr>)\<rparr>"
  using assms by (simp add: record_lap_def)

lemma record_lap_counted:
  assumes "current_race e = Some r" "state r = RUNNING" "map_of (lanes r) lane = Some ls"
    "\<not> finished ls" "\<not> debounced ls now"
  shows "record_lap e lane now =
           check_finished
             (broadcast_to_race
                (e\<lparr>current_race := Some (r\<lparr>lanes := AList.update lane (count_lap ls now) (lanes r)\<rparr>)\<rparr>)
                (race_id r)
                (RaceLap (race_id r) (car_id ls) lane (current_lap ls + 1) (lap_time_of ls now)
                   (is_best ls (lap_time_of ls now))))
             (r\<lparr>lanes := AList.update lane (count_lap ls now) (lanes r)\<rparr>) lane (count_lap ls now)"
  using assms by (simp add: record_lap_def Let_def)

lemma record_lap_ignored:
  "current_race e = None \<Longrightarrow> record_lap e lane now = e"
  "current_race e = Some r \<Longrightarrow> state r \<noteq> RUNNING \<Longrightarrow> record_lap e lane now = e"
  "current_race e = Some r \<Longrightarrow> map_of (lanes r) lane = None \<Longrightarrow> record_lap e lane now = e"
  "current_race e = Some r \<Longrightarrow> map_of (lanes r) lane = Some ls \<Longrightarrow> finished ls \<Longrightarrow>
     record_lap e lane now = e"
  by (simp_all add: record_lap_def)

lemma check_finished_not:
  "\<not> finishing r ls \<Longrightarrow> check_finished e r lane ls = e"
  by (auto simp: check_finished_def finishing_def)

lemma check_finished_some:
  assumes "finishing r ls"
    "\<not> all_finished (AList.update lane (finished_lane r ls) (lanes r))"
  shows "check_finished e r lane ls =
           e\<lparr>current_race := Some (r\<lparr>lanes := AList.update lane (finished_lane r ls) (lanes r),
                                      finish_order := finish_order r @ [lane]\<rparr>)\<rparr>"
  using assms by (simp add: check_finished_def finishing_def finished_lane_def Let_def)

lemma check_finished_all:
  assumes "finishing r ls"
    "all_finished (AList.update lane (finished_lane r ls) (lanes r))"
  shows "check_finished e r lane ls =
           \<lparr>current_race = Some (r\<lparr>lanes := AList.update lane (finished_lane r ls) (lanes r),
                                   finish_order := finish_order r @ [lane],
                                   state := FINISHED\<rparr>),
            tick_task = cancel (tick_task e),
            events = events e @
              [(race_id r, RaceFinished (race_id r) (finish_order r @ [lane])
                  (map result_of (AList.update lane (finished_lane r ls) (lanes r))))]\<rparr>"
  using assms
  by (cases e)
     (simp add: check_finished_def finishing_def finished_lane_def Let_def finish_race_def
        finish_lanes_all_finished broadcast_to_race_def)

lemma map_of_update_same: "map_of (AList.update k v al) k = Some v"
  by (simp add: AList.update_conv')

lemma map_of_update_other: "k' \<noteq> k \<Longrightarrow> map_of (AList.update k v al) k' = map_of al k'"
  by (simp add: AList.update_conv')

lemma all_finished_map_of:
  "all_finished al \<Longrightarrow> map_of al k = Some v \<Longrightarrow> finished v"
  unfolding all_finished_def using list_all_map_of [of "\<lambda>kl. finished (snd kl)" al k v] by simp

lemma started_race_current:
  "current_race (started_race tgt s) =
     Some \<lparr>race_id = 1, track_id = 1, mode = ''race_laps'', target_laps = tgt,
           time_limit_seconds = None, fuel_simulation_enabled = False,
           lanes = [(1, (new_lane 1 10)\<lparr>last_lap_timestamp := s\<rparr>),
                    (2, (new_lane 2 20)\<lparr>last_lap_timestamp := s\<rparr>)],
           state = RUNNING, start_time = Some s, elapsed_time_ms = 0,
           countdown_remaining = 1, finish_order = []\<rparr>"
  by (simp add: started_race_def two_lane_race_def setup_race_def is_running_def init_engine_def
        new_race_def Let_def start_countdown_def countdown_step_def start_race_def)

lemma power_in_range_update:
  "list_all (\<lambda>kl. 0 \<le> power_level (snd kl) \<and> power_level (snd kl) \<le> 100) al \<Longrightarrow>
   0 \<le> power_level v \<Longrightarrow> power_level v \<le> 100 \<Longrightarrow>
     list_all (\<lambda>kl. 0 \<le> power_level (snd kl) \<and> power_level (snd kl) \<le> 100) (AList.update k v al)"
  by (induction al) auto

lemma power_in_range_set_power: "power_in_range e \<Longrightarrow> power_in_range (set_power e lane v)"
  by (auto simp: power_in_range_def lanes_of_def set_power_def power_in_range_update
        split: option.splits)

lemma power_in_range_set_powers: "power_in_range e \<Longrightarrow> power_in_range (set_powers e pcs)"
  unfolding set_powers_def
  by (induction pcs arbitrary: e) (simp_all add: power_in_range_set_power)

lemma power_in_range_reachable: "power_in_range (run cfg cs init_engine)"
  using reachable_ok [of cfg cs]
  by (simp add: power_in_range_def engine_ok_def lane_ok_def list_all_iff)

lemma events_check_finished:
  "\<exists>rest. events (check_finished e r lane ls) = events e @ rest \<and>
          (\<forall>ev \<in> set rest. \<forall>a b c d t f. snd ev \<noteq> RaceLap a b c d t f)"
proof (cases "finishing r ls")
  case False
  then show ?thesis by (simp add: check_finished_not)
next
  case True
  show ?thesis
  proof (cases "all_finished (AList.update lane (finished_lane r ls) (lanes r))")
    case False
    then show ?thesis using True by (simp add: check_finished_some)
  next
    case all: True
    show ?thesis by (simp add: check_finished_all [OF True all])
  qed
qed

lemma lane_of_check_finished:
  assumes "map_of (lanes r) lane = Some ls" "current_race e = Some r"
  shows "\<exists>ls'. lane_of (check_finished e r lane ls) lane = Some ls' \<and>
           current_lap ls' = current_lap ls \<and> lap_times_ms ls' = lap_times_ms ls \<and>
           total_time_ms ls' = total_time_ms ls \<and> best_lap_time_ms ls' = best_lap_time_ms ls"
proof (cases "finishing r ls")
  case False
  then show ?thesis using assms by (simp add: check_finished_not lane_of_def lanes_of_def)
next
  case True
  show ?thesis
  proof (cases "all_finished (AList.update lane (finished_lane r ls) (lanes r))")
    case False
    then show ?thesis
      using True
      by (simp add: check_finished_some lane_of_def lanes_of_def map_of_update_same
            finished_lane_def)
  next
    case all: True
    show ?thesis
      by (simp add: check_finished_all [OF True all] lane_of_def lanes_of_def
            map_of_update_same finished_lane_def)
  qed
qed

lemma record_lap_counted_lane:
  assumes "current_race e = Some r" "state r = RUNNING" "map_of (lanes r) lane = Some ls"
    "\<not> finished ls" "\<not> debounced ls now"
  shows "\<exists>ls'. lane_of (record_lap e lane now) lane = Some ls' \<and>
           current_lap ls' = current_lap ls + 1 \<and>
           lap_times_ms ls' = lap_times_ms ls @ [lap_time_of ls now] \<and>
           total_time_ms ls' = total_time_ms ls + lap_time_of ls now \<and>
           best_lap_time_ms ls' =
             (if is_best ls (lap_time_of ls now) then Some (lap_time_of ls now)
              else best_lap_time_ms ls)"
proof -
  let ?c = "count_lap ls now"
  let ?r1 = "r\<lparr>lanes := AList.update lane ?c (lanes r)\<rparr>"
  let ?e1 = "broadcast_to_race (e\<lparr>current_race := Some ?r1\<rparr>) (race_id r)
               (RaceLap (race_id r) (car_id ls) lane (current_lap ls + 1) (lap_time_of ls now)
                  (is_best ls (lap_time_of ls now)))"
  have eq: "record_lap e lane now = check_finished ?e1 ?r1 lane ?c"
    by (rule record_lap_counted [OF assms])
  have m: "map_of (lanes ?r1) lane = Some ?c" by (simp add: map_of_update_same)
  have c: "current_race ?e1 = Some ?r1" by simp
  obtain ls' where l: "lane_of (check_finished ?e1 ?r1 lane ?c) lane = Some ls'"
    and s: "current_lap ls' = current_lap ?c" "lap_times_ms ls' = lap_times_ms ?c"
      "total_time_ms ls' = total_time_ms ?c" "best_lap_time_ms ls' = best_lap_time_ms ?c"
    using lane_of_check_finished [OF m c] by blast
  show ?thesis unfolding eq using l s by simp
qed

lemma lane_of_SomeD:
  "lane_of e lane = Some ls \<Longrightarrow> \<exists>r. current_race e = Some r \<and> map_of (lanes r) lane = Some ls"
  by (cases "current_race e") (simp_all add: lane_of_def lanes_of_def)

lemma record_lap_lane_step:
  assumes "lane_of e lane = Some ls"
  shows "\<exists>ls'. lane_of (record_lap e lane t) lane = Some ls' \<and>
           (if valid_crossing e lane t
            then current_lap ls' = current_lap ls + 1 \<and>
                 lap_times_ms ls' = lap_times_ms ls @ [lap_time_of ls t] \<and>
                 total_time_ms ls' = total_time_ms ls + lap_time_of ls t \<and>
                 best_lap_time_ms ls' =
                   (if is_best ls (lap_time_of ls t) then Some (lap_time_of ls t)
                    else best_lap_time_ms ls)
            else current_lap ls' = current_lap ls \<and> lap_times_ms ls' = lap_times_ms ls \<and>
                 total_time_ms ls' = total_time_ms ls \<and>
                 best_lap_time_ms ls' = best_lap_time_ms ls)"
proof -
  obtain r where r: "current_race e = Some r" and m: "map_of (lanes r) lane = Some ls"
    using lane_of_SomeD [OF assms] by blast
  consider (idle) "state r \<noteq> RUNNING" | (fin) "state r = RUNNING" "finished ls"
    | (deb) "state r = RUNNING" "\<not> finished ls" "debounced ls t"
    | (ok) "state r = RUNNING" "\<not> finished ls" "\<not> debounced ls t"
    by blast
  then show ?thesis
  proof cases
    case idle
    then show ?thesis
      using r m assms by (simp add: record_lap_ignored(2) valid_crossing_def)
  next
    case fin
    then show ?thesis
      using r m assms by (simp add: record_lap_ignored(4) valid_crossing_def)
  next
    case deb
    have "record_lap e lane t =
            e\<lparr>current_race := Some (r\<lparr>lanes :=
               AList.update lane (ls\<lparr>last_lap_timestamp := t\<rparr>) (lanes r)\<rparr>)\<rparr>"
      by (rule record_lap_debounced [OF r deb(1) m deb(2,3)])
    then show ?thesis
      using r m deb
      by (simp add: valid_crossing_def lane_of_def lanes_of_def map_of_update_same)
  next
    case ok
    have v: "valid_crossing e lane t"
      using r m ok by (simp add: valid_crossing_def)
    show ?thesis
      using record_lap_counted_lane [OF r ok(1) m ok(2,3)] v by simp
  qed
qed

lemma record_laps_general:
  "lane_of e lane = Some ls \<Longrightarrow> laps_consistent ls \<Longrightarrow>
     \<exists>ls'. lane_of (record_laps e lane ts) lane = Some ls' \<and> laps_consistent ls' \<and>
           current_lap ls' = current_lap ls + int (count_valid e lane ts)"
proof (induction ts arbitrary: e ls)
  case Nil
  then show ?case by simp
next
  case (Cons t ts)
  obtain ls1 where l1: "lane_of (record_lap e lane t) lane = Some ls1"
    and s: "if valid_crossing e lane t
            then current_lap ls1 = current_lap ls + 1 \<and>
                 lap_times_ms ls1 = lap_times_ms ls @ [lap_time_of ls t] \<and>
                 total_time_ms ls1 = total_time_ms ls + lap_time_of ls t \<and>
                 best_lap_time_ms ls1 =
                   (if is_best ls (lap_time_of ls t) then Some (lap_time_of ls t)
                    else best_lap_time_ms ls)
            else current_lap ls1 = current_lap ls \<and> lap_times_ms ls1 = lap_times_ms ls \<and>
                 total_time_ms ls1 = total_time_ms ls \<and>
                 best_lap_time_ms ls1 = best_lap_time_ms ls"
    using record_lap_lane_step [OF Cons.prems(1), of t] by blast
  have c1: "laps_consistent ls1"
  proof (cases "valid_crossing e lane t")
    case True
    have "laps_consistent (count_lap ls t)"
      by (rule laps_consistent_count_lap [OF Cons.prems(2)])
    then show ?thesis using s True by (simp add: laps_consistent_def)
  next
    case False
    then show ?thesis using s Cons.prems(2) by (simp add: laps_consistent_def)
  qed
  have n1: "current_lap ls1 = current_lap ls + (if valid_crossing e lane t then 1 else 0)"
    using s by (simp split: if_splits)
  obtain ls' where "lane_of (record_laps (record_lap e lane t) lane ts) lane = Some ls'"
    "laps_consistent ls'"
    "current_lap ls' = current_lap ls1 + int (count_valid (record_lap e lane t) lane ts)"
    using Cons.IH [OF l1 c1] by blast
  then show ?case using n1 by simp
qed

lemma update_position_estimate_nonzero:
  "sim_base_lap_time_ms cfg \<noteq> 0 \<Longrightarrow>
     update_position_estimate cfg l now =
       Inr (if last_lap_timestamp l \<noteq> 0 \<and> power_level l > 0
            then l\<lparr>estimated_position := dead_reckoning cfg l now\<rparr> else l)"
  by (simp add: update_position_estimate_def dead_reckoning_def Let_def)

lemma tick_lanes_positions:
  assumes "sim_base_lap_time_ms cfg \<noteq> 0"
  shows "fst (tick_lanes cfg fuel now ls) = None \<and>
         map fst (snd (tick_lanes cfg fuel now ls)) = map fst ls \<and>
         map (\<lambda>kl. estimated_position (snd kl)) (snd (tick_lanes cfg fuel now ls)) =
           map (\<lambda>kl. tick_position cfg now (snd kl)) ls"
proof (induction ls)
  case Nil
  show ?case by simp
next
  case (Cons kl ls)
  obtain k l where kl: "kl = (k, l)" by (cases kl)
  obtain ls' where r: "tick_lanes cfg fuel now ls = (None, ls')"
    using Cons.IH by (cases "tick_lanes cfg fuel now ls") auto
  show ?case
    using Cons.IH unfolding kl r
    by (simp add: update_position_estimate_nonzero [OF assms] r tick_position_def Let_def)
qed

lemma finish_lanes_positions:
  "map fst (fst (finish_lanes ls fo)) = map fst ls \<and>
   map (\<lambda>kl. estimated_position (snd kl)) (fst (finish_lanes ls fo)) =
     map (\<lambda>kl. estimated_position (snd kl)) ls"
  by (induction ls fo rule: finish_lanes.induct) (auto simp: Let_def split: prod.splits)

lemma lanes_of_finish_race:
  "current_race e = Some r \<Longrightarrow>
     lanes_of (finish_race e) = fst (finish_lanes (lanes r) (finish_order r))"
  by (simp add: finish_race_def Let_def lanes_of_def split: prod.splits)

lemma finished_count_update:
  "map_of al k = Some old \<Longrightarrow>
     finished_count (AList.update k v al) + (if finished old then 1 else 0) =
       finished_count al + (if finished v then 1 else 0)"
  by (induction al) (auto simp: finished_count_def)

lemma finished_count_update_new:
  "\<not> finished v \<Longrightarrow> finished_count al = 0 \<Longrightarrow> finished_count (AList.update k v al) = 0"
  by (induction al) (auto simp: finished_count_def split: if_splits)

lemma finished_count_build_lanes:
  "finished_count lns = 0 \<Longrightarrow> finished_count (build_lanes ps lns) = 0"
  by (induction ps arbitrary: lns) (simp_all add: finished_count_update_new new_lane_def)

lemma finished_count_set_timestamps:
  "finished_count (set_timestamps t ls) = finished_count ls"
  by (induction t ls rule: set_timestamps.induct) (simp_all add: finished_count_def)

lemma finished_update_position:
  "update_position_estimate cfg l now = Inr l1 \<Longrightarrow> finished l1 = finished l"
  by (auto simp: update_position_estimate_def Let_def split: if_splits)

lemma finished_count_tick_lanes:
  "finished_count (snd (tick_lanes cfg fuel now ls)) = finished_count ls"
proof (induction ls)
  case Nil
  show ?case by simp
next
  case (Cons kl ls)
  obtain k l where kl: "kl = (k, l)" by (cases kl)
  show ?case
    using Cons.IH unfolding kl
    by (auto simp: finished_count_def Let_def split: sum.splits prod.splits
          dest: finished_update_position)
qed

lemma finish_lanes_count:
  "length (snd (finish_lanes ls fo)) + finished_count ls = length fo + length ls \<and>
   finished_count (fst (finish_lanes ls fo)) = length ls"
  by (induction ls fo rule: finish_lanes.induct)
     (auto simp: finished_count_def Let_def split: prod.splits)

lemma finished_count_le: "finished_count ls \<le> length ls"
  by (simp add: finished_count_def)

lemma order_ok_broadcast_to_race [simp]: "order_ok (broadcast_to_race e rid m) = order_ok e"
  by (simp add: order_ok_def)

lemma order_ok_broadcast_state [simp]: "order_ok (broadcast_state e) = order_ok e"
  by (simp add: order_ok_def)

lemma order_ok_finish_race: "order_ok e \<Longrightarrow> order_ok (finish_race e)"
proof (cases "current_race e")
  case None
  then show ?thesis by (simp add: finish_race_def Let_def order_ok_def)
next
  case (Some r)
  assume "order_ok e"
  then have o: "length (finish_order r) = finished_count (lanes r)"
    using Some by (simp add: order_ok_def)
  obtain ls fo where f: "finish_lanes (lanes r) (finish_order r) = (ls, fo)"
    by (cases "finish_lanes (lanes r) (finish_order r)")
  have "length fo = finished_count ls"
    using finish_lanes_count [of "lanes r" "finish_order r"] o finished_count_le [of "lanes r"]
    unfolding f by simp
  then show ?thesis
    using Some f by (simp add: finish_race_def Let_def order_ok_def)
qed

lemma finished_count_Nil [simp]: "finished_count [] = 0"
  by (simp add: finished_count_def)

lemma order_ok_setup_race:
  "order_ok e \<Longrightarrow> order_ok (snd (setup_race e rid tid ps md tgt tlim fuel))"
  by (simp add: setup_race_def Let_def order_ok_def new_race_def finished_count_build_lanes)

lemma order_ok_start_race: "order_ok e \<Longrightarrow> order_ok (start_race e now)"
  by (auto simp: start_race_def Let_def order_ok_def finished_count_set_timestamps
        split: option.splits)

lemma order_ok_countdown_step: "order_ok e \<Longrightarrow> order_ok (countdown_step i e)"
  by (auto simp: countdown_step_def Let_def order_ok_def split: option.splits)

lemma order_ok_start_countdown: "order_ok e \<Longrightarrow> order_ok (snd (start_countdown e now))"
proof (cases "current_race e")
  case None
  assume "order_ok e"
  then show ?thesis using None by (simp add: start_countdown_def)
next
  case (Some r)
  assume ok: "order_ok e"
  have "order_ok (e\<lparr>current_race := Some (r\<lparr>state := COUNTDOWN, countdown_remaining := 5\<rparr>)\<rparr>)"
    using ok Some by (simp add: order_ok_def)
  then show ?thesis
    using Some
    by (simp add: start_countdown_def Let_def order_ok_start_race order_ok_countdown_step)
qed

lemma order_ok_tick: "order_ok e \<Longrightarrow> order_ok (snd (tick cfg e now))"
proof (cases "current_race e")
  case None
  assume "order_ok e"
  then show ?thesis using None by (simp add: tick_def)
next
  case (Some r)
  assume ok: "order_ok e"
  obtain err ls where tl: "tick_lanes cfg (fuel_simulation_enabled r) now (lanes r) = (err, ls)"
    by (cases "tick_lanes cfg (fuel_simulation_enabled r) now (lanes r)")
  have c: "finished_count ls = finished_count (lanes r)"
    using finished_count_tick_lanes [of cfg "fuel_simulation_enabled r" now "lanes r"]
    unfolding tl by simp
  have e2: "\<And>x. order_ok (e\<lparr>current_race := Some (r\<lparr>elapsed_time_ms := x, lanes := ls\<rparr>)\<rparr>)"
    using ok Some c by (simp add: order_ok_def)
  show ?thesis
    using ok Some e2 order_ok_finish_race [OF e2]
    by (simp add: tick_def Let_def tl split: option.splits)
qed

lemma order_ok_check_finished:
  assumes "order_ok e" "length (finish_order r) = finished_count (lanes r)"
    "map_of (lanes r) lane = Some ls" "\<not> finished ls"
  shows "order_ok (check_finished e r lane ls)"
proof -
  let ?ls = "ls\<lparr>finished := True, finish_position := Some (int (length (finish_order r)) + 1)\<rparr>"
  let ?r = "r\<lparr>lanes := AList.update lane ?ls (lanes r), finish_order := finish_order r @ [lane]\<rparr>"
  have "finished_count (AList.update lane ?ls (lanes r)) = Suc (finished_count (lanes r))"
    using finished_count_update [OF assms(3), of ?ls] assms(4) by simp
  then have a: "order_ok (e\<lparr>current_race := Some ?r\<rparr>)"
    using assms(2) by (simp add: order_ok_def)
  have b: "order_ok (finish_race (e\<lparr>current_race := Some ?r\<rparr>))"
    by (rule order_ok_finish_race [OF a])
  show ?thesis
    unfolding check_finished_def Let_def using assms(1) a b by simp
qed

lemma order_ok_record_lap: "order_ok e \<Longrightarrow> order_ok (record_lap e lane now)"
proof (cases "current_race e")
  case None
  assume "order_ok e"
  then show ?thesis using None by (simp add: record_lap_def)
next
  case (Some r)
  assume ok: "order_ok e"
  have o: "length (finish_order r) = finished_count (lanes r)"
    using ok Some by (simp add: order_ok_def)
  show ?thesis
  proof (cases "map_of (lanes r) lane")
    case None
    then show ?thesis using ok Some by (simp add: record_lap_def)
  next
    case m: (Some ls)
    have u: "finished_count (AList.update lane v (lanes r)) = finished_count (lanes r)"
      if "finished v = finished ls" for v
      using finished_count_update [OF m, of v] that by (cases "finished ls") simp_all
    have c: "finished_count (AList.update lane (count_lap ls now) (lanes r)) =
               finished_count (lanes r)"
      by (rule u) simp
    have "\<not> finished ls \<Longrightarrow> order_ok (check_finished
               (broadcast_to_race
                  (e\<lparr>current_race := Some (r\<lparr>lanes := AList.update lane (count_lap ls now) (lanes r)\<rparr>)\<rparr>)
                  (race_id r) msg)
               (r\<lparr>lanes := AList.update lane (count_lap ls now) (lanes r)\<rparr>) lane (count_lap ls now))"
      for msg
      using o c by (intro order_ok_check_finished) (simp_all add: order_ok_def map_of_update_same)
    then show ?thesis
      using ok Some m o u [of "ls\<lparr>last_lap_timestamp := now\<rparr>"]
      by (simp add: record_lap_def Let_def order_ok_def)
  qed
qed

lemma order_ok_set_power: "order_ok e \<Longrightarrow> order_ok (set_power e lane pl)"
proof (cases "current_race e")
  case None
  assume "order_ok e"
  then show ?thesis using None by (simp add: set_power_def)
next
  case (Some r)
  assume ok: "order_ok e"
  show ?thesis
  proof (cases "map_of (lanes r) lane")
    case None
    then show ?thesis using ok Some by (simp add: set_power_def)
  next
    case m: (Some ls)
    have "finished_count (AList.update lane (ls\<lparr>power_level := max 0 (min 100 pl)\<rparr>) (lanes r)) =
            finished_count (lanes r)"
      using finished_count_update [OF m, of "ls\<lparr>power_level := max 0 (min 100 pl)\<rparr>"]
      by (cases "finished ls") simp_all
    then show ?thesis
      using ok Some m by (simp add: set_power_def order_ok_def)
  qed
qed

lemma order_ok_pause: "order_ok e \<Longrightarrow> order_ok (pause e)"
  by (auto simp: pause_def order_ok_def split: option.splits)

lemma order_ok_resume: "order_ok e \<Longrightarrow> order_ok (resume e)"
  by (auto simp: resume_def order_ok_def split: option.splits)

lemma order_ok_stop: "order_ok e \<Longrightarrow> order_ok (stop e)"
  by (auto simp: stop_def Let_def order_ok_def split: option.splits)

lemma order_ok_exec: "order_ok e \<Longrightarrow> order_ok (exec cfg c e)"
  by (cases c)
     (simp_all add: order_ok_setup_race order_ok_start_countdown order_ok_tick
        order_ok_record_lap order_ok_set_power order_ok_pause order_ok_resume
        order_ok_stop race_tick_iteration_def)

lemma order_ok_run: "order_ok e \<Longrightarrow> order_ok (run cfg cs e)"
  unfolding run_def by (induction cs arbitrary: e) (simp_all add: order_ok_exec)

lemma reachable_order_ok: "order_ok (run cfg cs init_engine)"
  by (rule order_ok_run) (simp add: order_ok_def init_engine_def)

lemma first_lap_current:
  "current_race (record_lap (started_race 3 100) 1 101.2) =
     Some \<lparr>race_id = 1, track_id = 1, mode = ''race_laps'', target_laps = 3,
           time_limit_seconds = None, fuel_simulation_enabled = False,
           lanes = [(1, \<lparr>lane_number = 1, car_id = 10, power_level = 0, current_lap = 1,
                         lap_times_ms = [1200], best_lap_time_ms = Some 1200,
                         total_time_ms = 1200, last_lap_timestamp = 101.2,
                         estimated_position = 0, fuel_level = 100, finished = False,
                         finish_position = None\<rparr>),
                    (2, (new_lane 2 20)\<lparr>last_lap_timestamp := 100\<rparr>)],
           state = RUNNING, start_time = Some 100, elapsed_time_ms = 0,
           countdown_remaining = 1, finish_order = []\<rparr>"
  by (simp add: started_race_current record_lap_def
        check_finished_def count_lap_def is_best_def debounced_def lap_time_of_def py_int_def
        new_lane_def Let_def all_finished_def)

lemma powered_race_current:
  "current_race (set_power (started_race 3 10) 1 50) =
     Some \<lparr>race_id = 1, track_id = 1, mode = ''race_laps'', target_laps = 3,
           time_limit_seconds = None, fuel_simulation_enabled = False,
           lanes = [(1, (new_lane 1 10)\<lparr>last_lap_timestamp := 10, power_level := 50\<rparr>),
                    (2, (new_lane 2 20)\<lparr>last_lap_timestamp := 10\<rparr>)],
           state = RUNNING, start_time = Some 10, elapsed_time_ms = 0,
           countdown_remaining = 1, finish_order = []\<rparr>"
  by (simp add: started_race_current set_power_def new_lane_def)

lemma started_race_tick_task: "tick_task (started_race tgt s) = Some Pending"
  by (simp add: started_race_def two_lane_race_def setup_race_def is_running_def init_engine_def
        new_race_def Let_def start_countdown_def countdown_step_def start_race_def)

lemma record_lap_finish:
  assumes "current_race e = Some r" "state r = RUNNING" "mode r = ''race_laps''"
    "map_of (lanes r) lane = Some ls" "\<not> finished ls" "\<not> debounced ls now"
  shows "(\<exists>r' ls'. current_race (record_lap e lane now) = Some r' \<and>
           map_of (lanes r') lane = Some ls' \<and>
           current_lap ls' = current_lap ls + 1 \<and>
           (finished ls' \<longleftrightarrow> target_laps r \<le> current_lap ls') \<and>
           (finished ls' \<longrightarrow>
              finish_position ls' = Some (1 + int (length (finish_order r))) \<and>
              finish_order r' = finish_order r @ [lane] \<and>
              (\<forall>t. record_lap (record_lap e lane now) lane t = record_lap e lane now)) \<and>
           (\<not> finished ls' \<longrightarrow>
              finish_position ls' = finish_position ls \<and> finish_order r' = finish_order r) \<and>
           (\<forall>k. k \<noteq> lane \<longrightarrow> map_of (lanes r') k = map_of (lanes r) k) \<and>
           state r' = (if all_finished (lanes r') then FINISHED else RUNNING)) \<and>
         ((\<exists>cfg cs. e = run cfg cs init_engine) \<longrightarrow>
            length (finish_order r) = length (filter (\<lambda>kl. finished (snd kl)) (lanes r)))"
    (is "?main \<and> ?count")
proof (rule conjI)
  show ?count
  proof
    assume "\<exists>cfg cs. e = run cfg cs init_engine"
    then obtain cfg cs where e: "e = run cfg cs init_engine" by blast
    have "order_ok e" unfolding e by (rule reachable_order_ok)
    then show "length (finish_order r) = length (filter (\<lambda>kl. finished (snd kl)) (lanes r))"
      using assms(1) by (simp add: order_ok_def finished_count_def)
  qed
  show ?main
  proof -
  let ?c = "count_lap ls now"
  let ?r1 = "r\<lparr>lanes := AList.update lane ?c (lanes r)\<rparr>"
  let ?e1 = "broadcast_to_race (e\<lparr>current_race := Some ?r1\<rparr>) (race_id r)
               (RaceLap (race_id r) (car_id ls) lane (current_lap ls + 1) (lap_time_of ls now)
                  (is_best ls (lap_time_of ls now)))"
  let ?f = "finished_lane ?r1 ?c"
  let ?al = "AList.update lane ?f (lanes ?r1)"
  have eq: "record_lap e lane now = check_finished ?e1 ?r1 lane ?c"
    by (rule record_lap_counted [OF assms(1,2,4,5,6)])
  have fin: "finishing ?r1 ?c \<longleftrightarrow> target_laps r \<le> current_lap ls + 1"
    using assms(3) by (simp add: finishing_def)
  show ?thesis
  proof (cases "finishing ?r1 ?c")
    case False
    have res: "record_lap e lane now = ?e1"
      unfolding eq by (rule check_finished_not [OF False])
    have nf: "\<not> all_finished (lanes ?r1)"
      using all_finished_map_of [of "lanes ?r1" lane ?c] assms(5)
      by (auto simp: map_of_update_same)
    show ?thesis
      unfolding res using False fin assms(2,5) nf
      by (simp add: map_of_update_same map_of_update_other)
  next
    case True
    show ?thesis
    proof (cases "all_finished ?al")
      case False
      have res: "record_lap e lane now =
                   ?e1\<lparr>current_race := Some (?r1\<lparr>lanes := ?al,
                          finish_order := finish_order ?r1 @ [lane]\<rparr>)\<rparr>"
        unfolding eq by (rule check_finished_some [OF True False])
      have again: "\<And>t. record_lap (record_lap e lane now) lane t = record_lap e lane now"
        unfolding res
        by (simp add: record_lap_def map_of_update_same finished_lane_def)
      show ?thesis
        using again unfolding res using True fin assms(2) False
        by (simp add: map_of_update_same map_of_update_other finished_lane_def)
    next
      case all: True
      have res: "record_lap e lane now =
           \<lparr>current_race = Some (?r1\<lparr>lanes := ?al,
                                   finish_order := finish_order ?r1 @ [lane],
                                   state := FINISHED\<rparr>),
            tick_task = cancel (tick_task ?e1),
            events = events ?e1 @
              [(race_id ?r1, RaceFinished (race_id ?r1) (finish_order ?r1 @ [lane])
                  (map result_of ?al))]\<rparr>"
        unfolding eq by (rule check_finished_all [OF True all])
      have again: "\<And>t. record_lap (record_lap e lane now) lane t = record_lap e lane now"
        unfolding res
        by (simp add: record_lap_def)
      show ?thesis
        using again unfolding res using True fin all
        by (simp add: map_of_update_same map_of_update_other finished_lane_def)
    qed
  qed
qed
qed

lemma timed_race_current:
  "current_race timed_race =
     Some \<lparr>race_id = 1, track_id = 1, mode = ''race_laps'', target_laps = 3,
           time_limit_seconds = Some 60, fuel_simulation_enabled = False,
           lanes = [(1, (new_lane 1 10)\<lparr>last_lap_timestamp := 100\<rparr>),
                    (2, (new_lane 2 20)\<lparr>last_lap_timestamp := 100\<rparr>)],
           state = RUNNING, start_time = Some 100, elapsed_time_ms = 0,
           countdown_remaining = 1, finish_order = []\<rparr>"
  by (simp add: timed_race_def setup_race_def is_running_def init_engine_def
        new_race_def Let_def start_countdown_def countdown_step_def start_race_def)

lemma map_of_set_timestamps:
  "map_of (set_timestamps t ls) k = map_option (\<lambda>l. l\<lparr>last_lap_timestamp := t\<rparr>) (map_of ls k)"
  by (induction t ls rule: set_timestamps.induct) simp_all

lemma lanes_of_countdown_step: "lanes_of (countdown_step i e) = lanes_of e"
  by (simp add: countdown_step_def lanes_of_def Let_def split: option.splits)

lemma lanes_of_start_race: "lanes_of (start_race e now) = set_timestamps now (lanes_of e)"
  by (simp add: start_race_def lanes_of_def Let_def split: option.splits)

lemma lanes_of_start_countdown:
  "lanes_of (snd (start_countdown e now)) = set_timestamps now (lanes_of e)"
proof (cases "current_race e")
  case None
  then show ?thesis by (simp add: start_countdown_def lanes_of_def)
next
  case (Some r)
  have "lanes_of (e\<lparr>current_race := Some (r\<lparr>state := COUNTDOWN, countdown_remaining := 5\<rparr>)\<rparr>)
          = lanes_of e"
    using Some by (simp add: lanes_of_def)
  then show ?thesis
    using Some
    by (simp add: start_countdown_def Let_def lanes_of_start_race lanes_of_countdown_step)
qed

lemma finished_start_countdown:
  "lane_of e k = Some l \<Longrightarrow> lane_of (snd (start_countdown e now)) k = Some l' \<Longrightarrow>
     finished l' = finished l"
  by (auto simp: lane_of_def lanes_of_start_countdown map_of_set_timestamps)

lemma finished_setup_race:
  "lane_of e k = Some l \<Longrightarrow> \<not> finished l \<Longrightarrow>
     lane_of (snd (setup_race e rid tid ps md tgt tlim fuel)) k = Some l' \<Longrightarrow> \<not> finished l'"
  by (auto simp: setup_race_def Let_def lane_of_def lanes_of_def new_race_def
        build_lanes_map_of new_lane_def split: if_splits option.splits)

lemma finished_set_power:
  "lane_of e k = Some l \<Longrightarrow> lane_of (set_power e j v) k = Some l' \<Longrightarrow>
     finished l' = finished l"
  by (cases "j = k")
     (auto simp: lane_of_def lanes_of_def set_power_def map_of_update_same map_of_update_other
        split: option.splits)

lemma lanes_of_pause: "lanes_of (pause e) = lanes_of e"
  by (simp add: pause_def lanes_of_def split: option.splits)

lemma lanes_of_resume: "lanes_of (resume e) = lanes_of e"
  by (simp add: resume_def lanes_of_def split: option.splits)

lemma lanes_of_stop: "lanes_of (stop e) = lanes_of e"
  by (simp add: stop_def Let_def lanes_of_def split: option.splits)

lemma map_of_tick_lanes:
  "map_of (snd (tick_lanes cfg fuel now ls)) k = Some l' \<Longrightarrow>
     \<exists>l. map_of ls k = Some l \<and> finished l' = finished l"
proof (induction ls)
  case Nil
  then show ?case by simp
next
  case (Cons kl ls)
  obtain j l0 where kl: "kl = (j, l0)" by (cases kl)
  show ?case
    using Cons unfolding kl
    by (auto simp: Let_def split: sum.splits prod.splits if_splits
          dest: finished_update_position)
qed

lemma finished_tick:
  assumes "lane_of e k = Some l" "\<not> finished l"
    "lane_of (snd (tick cfg e now)) k = Some l'" "finished l'"
  shows "\<exists>r st tlim. current_race e = Some r \<and> start_time r = Some st \<and> st \<noteq> 0 \<and>
           time_limit_seconds r = Some tlim \<and> tlim \<noteq> 0 \<and>
           tlim * 1000 \<le> py_int ((now - st) * 1000)"
proof -
  obtain r where r: "current_race e = Some r" and m: "map_of (lanes r) k = Some l"
    using lane_of_SomeD [OF assms(1)] by blast
  have same: "lane_of e k = Some l' \<Longrightarrow> False"
    using assms(1,2,4) by simp
  show ?thesis
  proof (cases "start_time r")
    case None
    then have "snd (tick cfg e now) = e" using r by (simp add: tick_def)
    then show ?thesis using assms(3) same by simp
  next
    case (Some st)
    show ?thesis
    proof (cases "st = 0")
      case True
      then have "snd (tick cfg e now) = e" using r Some by (simp add: tick_def)
      then show ?thesis using assms(3) same by simp
    next
      case False
      obtain err ls2 where tl:
        "tick_lanes cfg (fuel_simulation_enabled r) now (lanes r) = (err, ls2)"
        by (cases "tick_lanes cfg (fuel_simulation_enabled r) now (lanes r)")
      have unf: "map_of ls2 k = Some l' \<Longrightarrow> False"
        using map_of_tick_lanes [of cfg "fuel_simulation_enabled r" now "lanes r" k l']
          m assms(2,4) unfolding tl by auto
      let ?r2 = "r\<lparr>elapsed_time_ms := py_int ((now - st) * 1000), lanes := ls2\<rparr>"
      let ?e2 = "e\<lparr>current_race := Some ?r2\<rparr>"
      have l2: "lanes_of ?e2 = ls2" by (simp add: lanes_of_def)
      show ?thesis
      proof (cases "err = None \<and> time_limit_reached ?r2")
        case True
        then show ?thesis
          using r Some False
          by (auto simp: time_limit_reached_def split: option.splits)
      next
        case nf: False
        have "lanes_of (snd (tick cfg e now)) = ls2"
          using r Some False nf l2
          by (auto simp: tick_def Let_def tl split: option.splits)
        then show ?thesis using assms(3) unf by (simp add: lane_of_def)
      qed
    qed
  qed
qed

lemma lane_of_check_finished_other:
  assumes "current_race e = Some r" "k \<noteq> lane"
  shows "lane_of (check_finished e r lane ls) k = map_of (lanes r) k"
proof (cases "finishing r ls")
  case False
  then show ?thesis using assms by (simp add: check_finished_not lane_of_def lanes_of_def)
next
  case True
  show ?thesis
  proof (cases "all_finished (AList.update lane (finished_lane r ls) (lanes r))")
    case False
    then show ?thesis
      using True assms
      by (simp add: check_finished_some lane_of_def lanes_of_def map_of_update_other)
  next
    case all: True
    show ?thesis
      using assms
      by (simp add: check_finished_all [OF True all] lane_of_def lanes_of_def
            map_of_update_other)
  qed
qed

lemma record_lap_other_lane:
  assumes "k \<noteq> lane"
  shows "lane_of (record_lap e lane now) k = lane_of e k"
proof (cases "current_race e")
  case None
  then show ?thesis by (simp add: record_lap_ignored(1))
next
  case (Some r)
  show ?thesis
  proof (cases "map_of (lanes r) lane")
    case None
    then show ?thesis using Some by (simp add: record_lap_ignored(3))
  next
    case m: (Some ls)
    consider (idle) "state r \<noteq> RUNNING" | (fin) "state r = RUNNING" "finished ls"
      | (deb) "state r = RUNNING" "\<not> finished ls" "debounced ls now"
      | (ok) "state r = RUNNING" "\<not> finished ls" "\<not> debounced ls now"
      by blast
    then show ?thesis
    proof cases
      case idle
      then show ?thesis using Some by (simp add: record_lap_ignored(2))
    next
      case fin
      then show ?thesis using Some m by (simp add: record_lap_ignored(4))
    next
      case deb
      show ?thesis
        using assms Some
        by (simp add: record_lap_debounced [OF Some deb(1) m deb(2,3)] lane_of_def lanes_of_def
              map_of_update_other)
    next
      case ok
      show ?thesis
        using assms Some
        by (simp add: record_lap_counted [OF Some ok(1) m ok(2,3)] lane_of_check_finished_other
              map_of_update_other lane_of_def [of e] lanes_of_def [of e])
    qed
  qed
qed

lemma finished_record_lap_same:
  assumes "lane_of e k = Some l" "\<not> finished l"
    "lane_of (record_lap e k now) k = Some l'" "finished l'"
  shows "\<exists>r. current_race e = Some r \<and> state r = RUNNING \<and> mode r = ''race_laps'' \<and>
           current_lap l' = current_lap l + 1 \<and> target_laps r \<le> current_lap l'"
proof -
  obtain r where r: "current_race e = Some r" and m: "map_of (lanes r) k = Some l"
    using lane_of_SomeD [OF assms(1)] by blast
  have same: "lane_of e k = Some l' \<Longrightarrow> False"
    using assms(1,2,4) by simp
  consider (idle) "state r \<noteq> RUNNING"
    | (deb) "state r = RUNNING" "debounced l now"
    | (ok) "state r = RUNNING" "\<not> debounced l now"
    by blast
  then show ?thesis
  proof cases
    case idle
    then show ?thesis using assms(3) same r by (simp add: record_lap_ignored(2))
  next
    case deb
    show ?thesis
      using assms(2,3,4) r
      by (auto simp: record_lap_debounced [OF r deb(1) m assms(2) deb(2)] lane_of_def lanes_of_def
            map_of_update_same)
  next
    case ok
    let ?c = "count_lap l now"
    let ?r1 = "r\<lparr>lanes := AList.update k ?c (lanes r)\<rparr>"
    let ?e1 = "broadcast_to_race (e\<lparr>current_race := Some ?r1\<rparr>) (race_id r)
               (RaceLap (race_id r) (car_id l) k (current_lap l + 1) (lap_time_of l now)
                  (is_best l (lap_time_of l now)))"
    have eq: "record_lap e k now = check_finished ?e1 ?r1 k ?c"
      by (rule record_lap_counted [OF r ok(1) m assms(2) ok(2)])
    show ?thesis
    proof (cases "finishing ?r1 ?c")
      case False
      have "record_lap e k now = ?e1" unfolding eq by (rule check_finished_not [OF False])
      then show ?thesis
        using assms(2,3,4) by (auto simp: lane_of_def lanes_of_def map_of_update_same)
    next
      case True
      have f: "mode r = ''race_laps''" "target_laps r \<le> current_lap l + 1"
        using True by (simp_all add: finishing_def)
      have "l' = finished_lane ?r1 ?c"
      proof (cases "all_finished (AList.update k (finished_lane ?r1 ?c) (lanes ?r1))")
        case False
        show ?thesis
          using assms(3) unfolding eq check_finished_some [OF True False]
          by (simp add: lane_of_def lanes_of_def map_of_update_same)
      next
        case all: True
        show ?thesis
          using assms(3) unfolding eq check_finished_all [OF True all]
          by (simp add: lane_of_def lanes_of_def map_of_update_same)
      qed
      then have "current_lap l' = current_lap l + 1" by (simp add: finished_lane_def)
      then show ?thesis using r ok(1) f by simp
    qed
  qed
qed

lemma finished_only_by:
  assumes "lane_of e k = Some l" "\<not> finished l"
    "lane_of (exec cfg c e) k = Some l'" "finished l'"
  shows "(\<exists>now r. c = RecordLap k now \<and> current_race e = Some r \<and> state r = RUNNING \<and>
            mode r = ''race_laps'' \<and> current_lap l' = current_lap l + 1 \<and>
            target_laps r \<le> current_lap l') \<or>
         (\<exists>now r st tlim. c = Tick now \<and> current_race e = Some r \<and> state r = RUNNING \<and>
            start_time r = Some st \<and> st \<noteq> 0 \<and> time_limit_seconds r = Some tlim \<and>
            tlim \<noteq> 0 \<and> tlim * 1000 \<le> py_int ((now - st) * 1000))"
proof -
  have same: "lane_of e k = Some l' \<Longrightarrow> False"
    using assms(1,2,4) by simp
  show ?thesis
  proof (cases c)
    case (SetupRace rid tid ps md tgt tlim fuel)
    then show ?thesis
      using finished_setup_race [OF assms(1,2), of rid tid ps md tgt tlim fuel l'] assms(3,4)
      by simp
  next
    case (StartCountdown now)
    then show ?thesis
      using finished_start_countdown [OF assms(1), of now l'] assms(2,3,4) by simp
  next
    case (Tick now)
    show ?thesis
    proof (cases "is_running e")
      case False
      then show ?thesis using Tick assms(3) same by (simp add: race_tick_iteration_def)
    next
      case True
      then have t: "lane_of (snd (tick cfg e now)) k = Some l'"
        using Tick assms(3) by (simp add: race_tick_iteration_def)
      obtain r st tlim where "current_race e = Some r" "start_time r = Some st" "st \<noteq> 0"
        "time_limit_seconds r = Some tlim" "tlim \<noteq> 0"
        "tlim * 1000 \<le> py_int ((now - st) * 1000)"
        using finished_tick [OF assms(1,2) t assms(4)] by blast
      then show ?thesis using Tick True by (auto simp: is_running_def)
    qed
  next
    case (RecordLap j now)
    show ?thesis
    proof (cases "j = k")
      case False
      then have "lane_of (record_lap e j now) k = lane_of e k"
        by (intro record_lap_other_lane) simp
      then show ?thesis using RecordLap assms(3) same by simp
    next
      case True
      have t: "lane_of (record_lap e k now) k = Some l'"
        using RecordLap True assms(3) by simp
      show ?thesis
        using finished_record_lap_same [OF assms(1,2) t assms(4)] RecordLap True by blast
    qed
  next
    case (SetPower j v)
    then show ?thesis
      using finished_set_power [OF assms(1), of j v l'] assms(2,3,4) by simp
  next
    case Pause
    then show ?thesis using assms(3) same by (simp add: lane_of_def lanes_of_pause)
  next
    case Resume
    then show ?thesis using assms(3) same by (simp add: lane_of_def lanes_of_resume)
  next
    case Stop
    then show ?thesis using assms(3) same by (simp add: lane_of_def lanes_of_stop)
  qed
qed


lemma lane_one_finished_current:
  "current_race (record_lap (started_race 1 100) 1 101.5) =
     Some \<lparr>race_id = 1, track_id = 1, mode = ''race_laps'', target_laps = 1,
           time_limit_seconds = None, fuel_simulation_enabled = False,
           lanes = [(1, \<lparr>lane_number = 1, car_id = 10, power_level = 0, current_lap = 1,
                         lap_times_ms = [1500], best_lap_time_ms = Some 1500,
                         total_time_ms = 1500, last_lap_timestamp = 101.5,
                         estimated_position = 0, fuel_level = 100, finished = True,
                         finish_position = Some 1\<rparr>),
                    (2, (new_lane 2 20)\<lparr>last_lap_timestamp := 100\<rparr>)],
           state = RUNNING, start_time = Some 100, elapsed_time_ms = 0,
           countdown_remaining = 1, finish_order = [1]\<rparr>"
  by (simp add: started_race_current record_lap_def
        check_finished_def count_lap_def is_best_def debounced_def lap_time_of_def py_int_def
        new_lane_def Let_def all_finished_def)

section \<open>The claims\<close>

subsection \<open>C1\<close>

text \<open>
  Claim C1, as stated, fails: a debounced crossing does change the lane. In the two-lane race
  started at clock reading 100, lane 1 is known, unfinished and on lap 0; a crossing at
  100.5 has lap time 500 ms, and after \<^verbatim>\<open>record_lap\<close> the lane's
  \<^verbatim>\<open>last_lap_timestamp\<close> is 100.5, not 100 (line 232 runs before the test of line 235).
\<close>

theorem C1_debounce_counterexample:
  "map_option (\<lambda>l. (finished l, current_lap l, lap_time_of l 100.5, last_lap_timestamp l))
      (lane_of (started_race 3 100) 1) = Some (False, 0, 500, 100) \<and>
   is_running (started_race 3 100) \<and>
   map_option last_lap_timestamp (lane_of (record_lap (started_race 3 100) 1 100.5) 1)
     = Some 100.5"
  by (simp add: lane_of_def lanes_of_def started_race_current is_running_def record_lap_def
        debounced_def lap_time_of_def py_int_def new_lane_def)

text \<open>
  Claim C1, amended: a \<^verbatim>\<open>record_lap\<close> call made while the race is RUNNING, on a known,
  unfinished lane whose \<^verbatim>\<open>current_lap\<close> is 0 and whose lap time is under 1000 ms,
  changes nothing but that lane's \<^verbatim>\<open>last_lap_timestamp\<close>, which becomes the clock
  reading of the crossing: the lap counter, the lap times, the total, the best lap and the
  position of the lane are unchanged, every other lane and field of the race is unchanged,
  and no event is emitted.
\<close>

theorem C1_debounced_crossing:
  assumes "current_race e = Some r" "state r = RUNNING" "map_of (lanes r) lane = Some ls"
    "\<not> finished ls" "current_lap ls = 0" "lap_time_of ls now < 1000"
  shows "record_lap e lane now =
           e\<lparr>current_race := Some (r\<lparr>lanes :=
               AList.update lane (ls\<lparr>last_lap_timestamp := now\<rparr>) (lanes r)\<rparr>)\<rparr> \<and>
         lane_of (record_lap e lane now) lane = Some (ls\<lparr>last_lap_timestamp := now\<rparr>) \<and>
         (\<forall>k. k \<noteq> lane \<longrightarrow> lane_of (record_lap e lane now) k = lane_of e k) \<and>
         events (record_lap e lane now) = events e"
proof -
  have d: "debounced ls now" using assms(5,6) by (simp add: debounced_def)
  have eq: "record_lap e lane now =
           e\<lparr>current_race := Some (r\<lparr>lanes :=
               AList.update lane (ls\<lparr>last_lap_timestamp := now\<rparr>) (lanes r)\<rparr>)\<rparr>"
    by (rule record_lap_debounced [OF assms(1-4) d])
  show ?thesis
    unfolding eq using assms(1)
    by (simp add: lane_of_def lanes_of_def map_of_update_same map_of_update_other)
qed

text \<open>Claim C1, amended, at the crossing at 100.5 of the race started at 100.\<close>

theorem C1_debounced_crossing_witness:
  "record_lap (started_race 3 100) 1 100.5 =
     (started_race 3 100)\<lparr>current_race := Some
        \<lparr>race_id = 1, track_id = 1, mode = ''race_laps'', target_laps = 3,
         time_limit_seconds = None, fuel_simulation_enabled = False,
         lanes = [(1, (new_lane 1 10)\<lparr>last_lap_timestamp := 100.5\<rparr>),
                  (2, (new_lane 2 20)\<lparr>last_lap_timestamp := 100\<rparr>)],
         state = RUNNING, start_time = Some 100, elapsed_time_ms = 0,
         countdown_remaining = 1, finish_order = []\<rparr>\<rparr>"
  using C1_debounced_crossing [OF started_race_current [of 3 100],
      where lane = 1 and ls = "(new_lane 1 10)\<lparr>last_lap_timestamp := 100\<rparr>" and now = "100.5"]
  by (simp add: lap_time_of_def py_int_def new_lane_def)

subsection \<open>C2\<close>

text \<open>
  Claim C2, as stated, fails: \<^verbatim>\<open>setup_race\<close> accepts two participants on lane 1 and
  returns a race with the single lane entry of the second one (car 20).
\<close>

theorem C2_duplicate_lanes_counterexample:
  "setup_race init_engine 1 1 [\<lparr>p_lane = 1, p_car_id = 10\<rparr>, \<lparr>p_lane = 1, p_car_id = 20\<rparr>]
      ''race_laps'' 3 None False
   = (Inr (new_race 1 1 ''race_laps'' 3 None False [(1, new_lane 1 20)]),
      init_engine\<lparr>current_race := Some (new_race 1 1 ''race_laps'' 3 None False [(1, new_lane 1 20)])\<rparr>)"
  by (simp add: setup_race_def is_running_def init_engine_def Let_def)

text \<open>
  Claim C2, amended: \<^verbatim>\<open>setup_race\<close> does not reject duplicate lane assignments.
  Unless a race is running it succeeds, with exactly one lane entry for each lane number
  that occurs in the participants, holding the car of the last participant listed for that
  lane; when the lane numbers are pairwise distinct there is one entry for each participant,
  in the order of the list.
\<close>

theorem C2_setup_merges_duplicate_lanes:
  assumes "\<not> (\<exists>r0. current_race e = Some r0 \<and> state r0 = RUNNING)"
  shows "\<exists>r. fst (setup_race e rid tid ps md tgt tlim fuel) = Inr r \<and>
           distinct (map fst (lanes r)) \<and>
           set (map fst (lanes r)) = p_lane ` set ps \<and>
           (\<forall>k. map_of (lanes r) k =
                  map_option (\<lambda>p. new_lane k (p_car_id p))
                    (List.find (\<lambda>p. p_lane p = k) (rev ps))) \<and>
           (distinct (map p_lane ps) \<longrightarrow>
              lanes r = map (\<lambda>p. (p_lane p, new_lane (p_lane p) (p_car_id p))) ps)"
proof -
  have nr: "\<not> is_running e"
    using assms by (auto simp: is_running_def split: option.splits)
  have d: "distinct (map fst (build_lanes ps []))"
    by (rule build_lanes_distinct) simp
  have k: "set (map fst (build_lanes ps [])) = p_lane ` set ps"
    using build_lanes_keys [of ps "[]"] by simp
  have m: "\<forall>k. map_of (build_lanes ps []) k =
             map_option (\<lambda>p. new_lane k (p_car_id p)) (List.find (\<lambda>p. p_lane p = k) (rev ps))"
    by (simp add: build_lanes_map_of split: option.splits)
  have o: "distinct (map p_lane ps) \<longrightarrow>
             build_lanes ps [] = map (\<lambda>p. (p_lane p, new_lane (p_lane p) (p_car_id p))) ps"
    using build_lanes_distinct_lanes [of ps "[]"] by simp
  show ?thesis
    using nr d k m o by (simp add: setup_race_def Let_def new_race_def)
qed

text \<open>Claim C2, amended, at the list with two participants on lane 1.\<close>

theorem C2_setup_merges_duplicate_lanes_witness:
  "\<exists>r. fst (setup_race init_engine 1 1 [\<lparr>p_lane = 1, p_car_id = 10\<rparr>, \<lparr>p_lane = 1, p_car_id = 20\<rparr>]
             ''race_laps'' 3 None False) = Inr r \<and>
       map fst (lanes r) = [1] \<and> map_of (lanes r) 1 = Some (new_lane 1 20)"
proof -
  have h: "\<not> (\<exists>r0. current_race init_engine = Some r0 \<and> state r0 = RUNNING)"
    by (simp add: init_engine_def)
  show ?thesis
    using C2_setup_merges_duplicate_lanes [OF h, of 1 1
        "[\<lparr>p_lane = 1, p_car_id = 10\<rparr>, \<lparr>p_lane = 1, p_car_id = 20\<rparr>]" "''race_laps''" 3 None False]
    by (simp add: setup_race_def is_running_def init_engine_def new_race_def Let_def)
qed

subsection \<open>C3\<close>

text \<open>
  Claim C3, as stated, fails: a valid \<^verbatim>\<open>record_lap\<close> reaching the target is not the only
  way a lane becomes finished in \<^verbatim>\<open>race_laps\<close> mode. With a time limit of 60 s and the
  race started at 100, the tick at 160 finalizes the race and marks lane 1 finished, in
  position 1, with \<^verbatim>\<open>current_lap\<close> 0 of a target of 3.
\<close>

theorem C3_time_limit_counterexample:
  "map_option (\<lambda>r. (mode r, target_laps r, state r)) (current_race timed_race)
     = Some (''race_laps'', 3, RUNNING) \<and>
   map_option (\<lambda>l. (finished l, current_lap l)) (lane_of timed_race 1) = Some (False, 0) \<and>
   map_option (\<lambda>l. (finished l, current_lap l, finish_position l))
      (lane_of (exec \<lparr>sim_base_lap_time_ms = 5000\<rparr> (Tick 160) timed_race) 1)
     = Some (True, 0, Some 1)"
  by (simp add: lane_of_def lanes_of_def timed_race_current race_tick_iteration_def
        is_running_def tick_def Let_def update_position_estimate_def time_limit_reached_def
        py_int_def finish_race_def new_lane_def)

text \<open>
  Claim C3, amended: in \<^verbatim>\<open>race_laps\<close> mode, a valid \<^verbatim>\<open>record_lap\<close> (race RUNNING, lane known
  and unfinished, crossing not debounced) leaves the lane finished exactly when its
  incremented \<^verbatim>\<open>current_lap\<close> reaches \<^verbatim>\<open>target_laps\<close>. Then its \<^verbatim>\<open>finish_position\<close> is
  1 + the length of \<^verbatim>\<open>finish_order\<close> before the call, the lane is appended to
  \<^verbatim>\<open>finish_order\<close>, and no later \<^verbatim>\<open>record_lap\<close> on that lane changes anything (the position
  is assigned once); otherwise position and finish order are unchanged. The other lanes are
  untouched, and the race is FINISHED afterwards exactly when every lane is finished. In
  every engine reached by calls, the length of \<^verbatim>\<open>finish_order\<close> is the number of lanes
  already finished. Whatever the call, an unfinished lane becomes finished in two ways only:
  by such a \<^verbatim>\<open>record_lap\<close> on that lane in \<^verbatim>\<open>race_laps\<close> mode, or by a tick of the running
  race that finds the time limit reached and finalizes the race.
\<close>

theorem C3_lap_mode_finish:
  "(current_race e = Some r \<and> state r = RUNNING \<and> mode r = ''race_laps'' \<and>
    map_of (lanes r) lane = Some ls \<and> \<not> finished ls \<and> \<not> debounced ls now \<longrightarrow>
      (\<exists>r' ls'. current_race (record_lap e lane now) = Some r' \<and>
         map_of (lanes r') lane = Some ls' \<and>
         current_lap ls' = current_lap ls + 1 \<and>
         (finished ls' \<longleftrightarrow> target_laps r \<le> current_lap ls') \<and>
         (finished ls' \<longrightarrow>
            finish_position ls' = Some (1 + int (length (finish_order r))) \<and>
            finish_order r' = finish_order r @ [lane] \<and>
            (\<forall>t. record_lap (record_lap e lane now) lane t = record_lap e lane now)) \<and>
         (\<not> finished ls' \<longrightarrow>
            finish_position ls' = finish_position ls \<and> finish_order r' = finish_order r) \<and>
         (\<forall>k. k \<noteq> lane \<longrightarrow> map_of (lanes r') k = map_of (lanes r) k) \<and>
         state r' = (if (\<forall>kl \<in> set (lanes r'). finished (snd kl)) then FINISHED else RUNNING))) \<and>
   ((\<exists>cfg cs. e = run cfg cs init_engine) \<and> current_race e = Some r \<longrightarrow>
      length (finish_order r) = length (filter (\<lambda>kl. finished (snd kl)) (lanes r))) \<and>
   (lane_of e k = Some l \<and> \<not> finished l \<and> lane_of (exec cfg c e) k = Some l' \<and> finished l' \<longrightarrow>
      (\<exists>t r0. c = RecordLap k t \<and> current_race e = Some r0 \<and> state r0 = RUNNING \<and>
          mode r0 = ''race_laps'' \<and> current_lap l' = current_lap l + 1 \<and>
          target_laps r0 \<le> current_lap l') \<or>
      (\<exists>t r0 st tlim. c = Tick t \<and> current_race e = Some r0 \<and> state r0 = RUNNING \<and>
          start_time r0 = Some st \<and> st \<noteq> 0 \<and> time_limit_seconds r0 = Some tlim \<and>
          tlim \<noteq> 0 \<and> tlim * 1000 \<le> py_int ((t - st) * 1000)))"
proof (intro conjI impI)
  assume h: "current_race e = Some r \<and> state r = RUNNING \<and> mode r = ''race_laps'' \<and>
    map_of (lanes r) lane = Some ls \<and> \<not> finished ls \<and> \<not> debounced ls now"
  have a: "all_finished al = (\<forall>kl \<in> set al. finished (snd kl))" for al
    by (simp add: all_finished_def list_all_iff)
  show "\<exists>r' ls'. current_race (record_lap e lane now) = Some r' \<and>
         map_of (lanes r') lane = Some ls' \<and>
         current_lap ls' = current_lap ls + 1 \<and>
         (finished ls' \<longleftrightarrow> target_laps r \<le> current_lap ls') \<and>
         (finished ls' \<longrightarrow>
            finish_position ls' = Some (1 + int (length (finish_order r))) \<and>
            finish_order r' = finish_order r @ [lane] \<and>
            (\<forall>t. record_lap (record_lap e lane now) lane t = record_lap e lane now)) \<and>
         (\<not> finished ls' \<longrightarrow>
            finish_position ls' = finish_position ls \<and> finish_order r' = finish_order r) \<and>
         (\<forall>k. k \<noteq> lane \<longrightarrow> map_of (lanes r') k = map_of (lanes r) k) \<and>
         state r' = (if (\<forall>kl \<in> set (lanes r'). finished (snd kl)) then FINISHED else RUNNING)"
    using record_lap_finish [of e r lane ls now, THEN conjunct1] h unfolding a by blast
next
  assume h: "(\<exists>cfg cs. e = run cfg cs init_engine) \<and> current_race e = Some r"
  then obtain cfg cs where e: "e = run cfg cs init_engine" by blast
  have "order_ok e" unfolding e by (rule reachable_order_ok)
  then show "length (finish_order r) = length (filter (\<lambda>kl. finished (snd kl)) (lanes r))"
    using h by (simp add: order_ok_def finished_count_def)
next
  assume h: "lane_of e k = Some l \<and> \<not> finished l \<and> lane_of (exec cfg c e) k = Some l' \<and> finished l'"
  show "(\<exists>t r0. c = RecordLap k t \<and> current_race e = Some r0 \<and> state r0 = RUNNING \<and>
          mode r0 = ''race_laps'' \<and> current_lap l' = current_lap l + 1 \<and>
          target_laps r0 \<le> current_lap l') \<or>
      (\<exists>t r0 st tlim. c = Tick t \<and> current_race e = Some r0 \<and> state r0 = RUNNING \<and>
          start_time r0 = Some st \<and> st \<noteq> 0 \<and> time_limit_seconds r0 = Some tlim \<and>
          tlim \<noteq> 0 \<and> tlim * 1000 \<le> py_int ((t - st) * 1000))"
    using finished_only_by [of e k l cfg c l'] h by blast
qed

text \<open>
  Claim C3, amended, at a race with target 1 in which lane 1 has finished: the first
  counted lap of lane 2 finishes it in position 2, and with every lane finished the race is
  FINISHED.
\<close>

theorem C3_lap_mode_finish_witness:
  "\<exists>r' ls'. current_race (record_lap (record_lap (started_race 1 100) 1 101.5) 2 101.8) = Some r' \<and>
      map_of (lanes r') 2 = Some ls' \<and> current_lap ls' = 1 \<and> finished ls' \<and>
      finish_position ls' = Some 2 \<and> finish_order r' = [1, 2] \<and>
      (\<forall>kl \<in> set (lanes r'). finished (snd kl)) \<and> state r' = FINISHED"
proof -
  let ?e = "record_lap (started_race 1 100) 1 101.5"
  let ?r = "\<lparr>race_id = 1, track_id = 1, mode = ''race_laps'', target_laps = 1,
           time_limit_seconds = None, fuel_simulation_enabled = False,
           lanes = [(1, \<lparr>lane_number = 1, car_id = 10, power_level = 0, current_lap = 1,
                         lap_times_ms = [1500], best_lap_time_ms = Some 1500,
                         total_time_ms = 1500, last_lap_timestamp = 101.5,
                         estimated_position = 0, fuel_level = 100, finished = True,
                         finish_position = Some 1\<rparr>),
                    (2, (new_lane 2 20)\<lparr>last_lap_timestamp := 100\<rparr>)],
           state = RUNNING, start_time = Some 100, elapsed_time_ms = 0,
           countdown_remaining = 1, finish_order = [1]\<rparr>"
  let ?ls = "(new_lane 2 20)\<lparr>last_lap_timestamp := 100\<rparr>"
  have h1: "current_race ?e = Some ?r" by (rule lane_one_finished_current)
  have h2: "state ?r = RUNNING" and h3: "mode ?r = ''race_laps''"
    and h4: "map_of (lanes ?r) 2 = Some ?ls" and h5: "\<not> finished ?ls"
    and h6: "\<not> debounced ?ls 101.8"
    by (simp_all add: new_lane_def debounced_def lap_time_of_def py_int_def)
  have h: "current_race ?e = Some ?r \<and> state ?r = RUNNING \<and> mode ?r = ''race_laps'' \<and>
    map_of (lanes ?r) 2 = Some ?ls \<and> \<not> finished ?ls \<and> \<not> debounced ?ls 101.8"
    using h1 h2 h3 h4 h5 h6 by blast
  obtain r' ls' where f:
    "current_race (record_lap ?e 2 101.8) = Some r'"
    "map_of (lanes r') 2 = Some ls'"
    "current_lap ls' = current_lap ?ls + 1"
    "finished ls' \<longleftrightarrow> target_laps ?r \<le> current_lap ls'"
    "finished ls' \<longrightarrow>
            finish_position ls' = Some (1 + int (length (finish_order ?r))) \<and>
            finish_order r' = finish_order ?r @ [2]"
    "state r' = (if (\<forall>kl \<in> set (lanes r'). finished (snd kl)) then FINISHED else RUNNING)"
    using C3_lap_mode_finish [where e = ?e and r = ?r and lane = 2 and ls = ?ls and now = "101.8",
        THEN conjunct1] h by blast
  have m: "map (\<lambda>kl. finished (snd kl)) (lanes r') = [True, True]"
    using f(1) unfolding record_lap_counted [OF h1 h2 h4 h5 h6]
    by (auto simp: check_finished_def count_lap_def is_best_def lap_time_of_def py_int_def
          new_lane_def Let_def all_finished_def finish_race_def)
  have "\<forall>b \<in> set (map (\<lambda>kl. finished (snd kl)) (lanes r')). b"
    unfolding m by simp
  then have all: "\<forall>kl \<in> set (lanes r'). finished (snd kl)"
    by simp
  show ?thesis
    using f all by (intro exI [of _ r'] exI [of _ ls']) (simp add: new_lane_def)
qed

subsection \<open>C4\<close>

text \<open>
  Claim C4: from a lane with no lap recorded, after any sequence of \<^verbatim>\<open>record_lap\<close>
  calls on that lane of which N are valid (race RUNNING, lane known and unfinished,
  crossing not debounced), \<^verbatim>\<open>current_lap\<close> is N, \<^verbatim>\<open>lap_times_ms\<close> has N entries,
  \<^verbatim>\<open>total_time_ms\<close> is their sum and \<^verbatim>\<open>best_lap_time_ms\<close> is their minimum (none
  when N is 0). Moreover, in every engine reached by calls, every lane has
  \<^verbatim>\<open>current_lap\<close> equal to the number of its lap times, the total equal to their sum
  and the best lap equal to their minimum.
\<close>

theorem C4_valid_laps:
  "(lane_of e lane = Some ls \<and> current_lap ls = 0 \<and> lap_times_ms ls = [] \<and>
    total_time_ms ls = 0 \<and> best_lap_time_ms ls = None \<longrightarrow>
      (\<exists>ls'. lane_of (record_laps e lane ts) lane = Some ls' \<and>
         current_lap ls' = int (count_valid e lane ts) \<and>
         length (lap_times_ms ls') = count_valid e lane ts \<and>
         total_time_ms ls' = sum_list (lap_times_ms ls') \<and>
         best_lap_time_ms ls' =
           (if count_valid e lane ts = 0 then None else Some (Min (set (lap_times_ms ls')))))) \<and>
   (\<forall>k l. lane_of (run cfg cs init_engine) k = Some l \<longrightarrow>
      current_lap l = int (length (lap_times_ms l)) \<and>
      total_time_ms l = sum_list (lap_times_ms l) \<and>
      best_lap_time_ms l =
        (if lap_times_ms l = [] then None else Some (Min (set (lap_times_ms l)))))"
proof (intro conjI impI allI)
  assume h: "lane_of e lane = Some ls \<and> current_lap ls = 0 \<and> lap_times_ms ls = [] \<and>
    total_time_ms ls = 0 \<and> best_lap_time_ms ls = None"
  then have c: "laps_consistent ls" by (simp add: laps_consistent_def)
  obtain ls' where l: "lane_of (record_laps e lane ts) lane = Some ls'"
    and c': "laps_consistent ls'"
    and n: "current_lap ls' = current_lap ls + int (count_valid e lane ts)"
    using record_laps_general [OF _ c, of e lane ts] h by blast
  have len: "length (lap_times_ms ls') = count_valid e lane ts"
    using c' n h by (simp add: laps_consistent_def)
  have z: "(count_valid e lane ts = 0) = (lap_times_ms ls' = [])"
    by (simp add: len [symmetric])
  show "\<exists>ls'. lane_of (record_laps e lane ts) lane = Some ls' \<and>
         current_lap ls' = int (count_valid e lane ts) \<and>
         length (lap_times_ms ls') = count_valid e lane ts \<and>
         total_time_ms ls' = sum_list (lap_times_ms ls') \<and>
         best_lap_time_ms ls' =
           (if count_valid e lane ts = 0 then None else Some (Min (set (lap_times_ms ls'))))"
    apply (rule exI [of _ ls'])
    using l c' n h len z by (simp add: laps_consistent_def)
next
  fix k l
  assume "lane_of (run cfg cs init_engine) k = Some l"
  then have "lane_ok l" by (rule reachable_lane_ok)
  then have c: "laps_consistent l" by (simp add: lane_ok_def)
  show "current_lap l = int (length (lap_times_ms l))"
    using c by (simp add: laps_consistent_def)
  show "total_time_ms l = sum_list (lap_times_ms l)"
    using c by (simp add: laps_consistent_def)
  show "best_lap_time_ms l =
        (if lap_times_ms l = [] then None else Some (Min (set (lap_times_ms l))))"
    using c by (simp add: laps_consistent_def)
qed

text \<open>
  Claim C4 at three crossings of lane 1 in the race started at 100: the one at 100.5 is
  debounced, those at 101.7 and 102.8 are counted.
\<close>

theorem C4_valid_laps_witness:
  "count_valid (started_race 3 100) 1 [100.5, 101.7, 102.8] = 2 \<and>
   (\<exists>ls'. lane_of (record_laps (started_race 3 100) 1 [100.5, 101.7, 102.8]) 1 = Some ls' \<and>
      current_lap ls' = 2 \<and> length (lap_times_ms ls') = 2 \<and>
      total_time_ms ls' = sum_list (lap_times_ms ls') \<and>
      best_lap_time_ms ls' = Some (Min (set (lap_times_ms ls'))))"
proof -
  have cv: "count_valid (started_race 3 100) 1 [100.5, 101.7, 102.8] = 2"
    by (simp add: valid_crossing_def started_race_current record_lap_def
        check_finished_def count_lap_def is_best_def debounced_def lap_time_of_def py_int_def
        new_lane_def Let_def all_finished_def)
  have l: "lane_of (started_race 3 100) 1 = Some ((new_lane 1 10)\<lparr>last_lap_timestamp := 100\<rparr>)"
    by (simp add: lane_of_def lanes_of_def started_race_current)
  show ?thesis
    using C4_valid_laps [where e = "started_race 3 100" and lane = 1
        and ls = "(new_lane 1 10)\<lparr>last_lap_timestamp := 100\<rparr>"
        and ts = "[100.5, 101.7, 102.8]"] l
    unfolding cv by (simp add: new_lane_def)
qed

subsection \<open>C5\<close>

text \<open>
  Claim C5: in every engine reached by calls, and after every sequence of
  \<^verbatim>\<open>set_power\<close> calls from an engine whose lanes are in range, every lane's
  \<^verbatim>\<open>power_level\<close> lies within 0 and 100. One \<^verbatim>\<open>set_power\<close> stores the value clamped
  into that range in the lane it names, changes nothing when there is no race or the lane
  is unknown, leaves every other lane alone, and emits no event.
\<close>

theorem C5_power_clamped:
  "power_in_range (run cfg cs init_engine) \<and>
   (power_in_range e \<longrightarrow> power_in_range (set_powers e pcs)) \<and>
   (\<forall>ls. lane_of e lane = Some ls \<longrightarrow>
      lane_of (set_power e lane v) lane = Some (ls\<lparr>power_level := max 0 (min 100 v)\<rparr>) \<and>
      0 \<le> max 0 (min 100 v) \<and> max 0 (min 100 v) \<le> 100) \<and>
   (lane_of e lane = None \<longrightarrow> set_power e lane v = e) \<and>
   (\<forall>k. k \<noteq> lane \<longrightarrow> lane_of (set_power e lane v) k = lane_of e k) \<and>
   events (set_power e lane v) = events e"
proof -
  have a: "\<forall>ls. lane_of e lane = Some ls \<longrightarrow>
      lane_of (set_power e lane v) lane = Some (ls\<lparr>power_level := max 0 (min 100 v)\<rparr>) \<and>
      0 \<le> max 0 (min 100 v) \<and> max 0 (min 100 v) \<le> 100"
    by (auto simp: lane_of_def lanes_of_def set_power_def map_of_update_same
          split: option.splits)
  have b: "lane_of e lane = None \<longrightarrow> set_power e lane v = e"
    by (auto simp: lane_of_def lanes_of_def set_power_def split: option.splits)
  have c: "\<forall>k. k \<noteq> lane \<longrightarrow> lane_of (set_power e lane v) k = lane_of e k"
    by (auto simp: lane_of_def lanes_of_def set_power_def map_of_update_other
          split: option.splits)
  have d: "events (set_power e lane v) = events e"
    by (simp add: set_power_def split: option.splits)
  show ?thesis
    using a b c d power_in_range_reachable power_in_range_set_powers by blast
qed

text \<open>Claim C5 at powers 250, -7 and 1000000, at an unknown lane and at an engine without a race.\<close>

theorem C5_power_clamped_witness:
  "map_option power_level (lane_of (set_power (two_lane_race 3) 1 250) 1) = Some 100 \<and>
   map_option power_level (lane_of (set_power (two_lane_race 3) 2 (- 7)) 2) = Some 0 \<and>
   set_power (two_lane_race 3) 5 40 = two_lane_race 3 \<and>
   set_power init_engine 1 40 = init_engine \<and>
   power_in_range (set_powers (two_lane_race 3) [(1, 250), (2, - 7), (1, 1000000)])"
proof -
  have l1: "lane_of (two_lane_race 3) 1 = Some (new_lane 1 10)"
    and l2: "lane_of (two_lane_race 3) 2 = Some (new_lane 2 20)"
    and l5: "lane_of (two_lane_race 3) 5 = None"
    and l0: "lane_of init_engine 1 = None"
    and p: "power_in_range (two_lane_race 3)"
    by (simp_all add: lane_of_def lanes_of_def two_lane_race_def setup_race_def is_running_def
          init_engine_def new_race_def Let_def power_in_range_def new_lane_def)
  show ?thesis
    using C5_power_clamped [of _ _ "two_lane_race 3" _ 1 250]
      C5_power_clamped [of _ _ "two_lane_race 3" _ 2 "- 7"]
      C5_power_clamped [of _ _ "two_lane_race 3" "[(1, 250), (2, - 7), (1, 1000000)]" 5 40]
      C5_power_clamped [of _ _ init_engine _ 1 40]
      l1 l2 l5 l0 p
    by simp
qed

subsection \<open>C6\<close>

text \<open>
  Claim C6, as stated, fails: a tick does not move every lane with positive power. With
  target 1, lane 1 at power 50 finishes at its crossing at 11.5; the tick at 13 skips the
  finished lane and leaves its position at 0, where the formula gives 0.15.
\<close>

theorem C6_finished_lane_counterexample:
  "map_option (\<lambda>l. (finished l, power_level l, last_lap_timestamp l, estimated_position l))
      (lane_of (snd (race_tick_iteration \<lparr>sim_base_lap_time_ms = 5000\<rparr>
                       (record_lap (set_power (started_race 1 10) 1 50) 1 11.5) 13)) 1)
     = Some (True, 50, 11.5, 0) \<and>
   py_fmod (((13 - 11.5) * (50 / 100)) / (5000 / 1000)) 1 = 0.15"
  by (simp add: lane_of_def lanes_of_def started_race_current record_lap_def set_power_def
        check_finished_def count_lap_def is_best_def debounced_def lap_time_of_def py_int_def
        new_lane_def Let_def all_finished_def race_tick_iteration_def is_running_def tick_def
        update_position_estimate_def time_limit_reached_def py_fmod_def broadcast_state_def)

text \<open>
  Claim C6, amended: in every engine reached by calls every lane's
  \<^verbatim>\<open>estimated_position\<close> lies in [0,1). A tick on a race whose start time is set (and
  not 0), with a nonzero nominal lap time, raises nothing, keeps the lanes and their order,
  and sets the position of an unfinished lane with \<^verbatim>\<open>power_level\<close> above 0 and
  \<^verbatim>\<open>last_lap_timestamp\<close> other than 0 to the dead-reckoning value, taken mod 1.0; the
  position of every other lane is unchanged: one whose power is 0, one that is finished,
  one whose timestamp is 0.
\<close>

theorem C6_position_estimate:
  "(\<forall>k l. lane_of (run cfg cs init_engine) k = Some l \<longrightarrow>
      0 \<le> estimated_position l \<and> estimated_position l < 1) \<and>
   (current_race e = Some r \<and> start_time r = Some st \<and> st \<noteq> 0 \<and>
    sim_base_lap_time_ms cfg \<noteq> 0 \<longrightarrow>
      fst (tick cfg e now) = None \<and>
      map fst (lanes_of (snd (tick cfg e now))) = map fst (lanes r) \<and>
      map (\<lambda>kl. estimated_position (snd kl)) (lanes_of (snd (tick cfg e now))) =
        map (\<lambda>kl. tick_position cfg now (snd kl)) (lanes r))"
proof (intro conjI impI allI)
  fix k l
  assume "lane_of (run cfg cs init_engine) k = Some l"
  then have "lane_ok l" by (rule reachable_lane_ok)
  then show "0 \<le> estimated_position l" "estimated_position l < 1"
    by (simp_all add: lane_ok_def)
next
  assume h: "current_race e = Some r \<and> start_time r = Some st \<and> st \<noteq> 0 \<and>
    sim_base_lap_time_ms cfg \<noteq> 0"
  have t: "fst (tick_lanes cfg (fuel_simulation_enabled r) now (lanes r)) = None \<and>
         map fst (snd (tick_lanes cfg (fuel_simulation_enabled r) now (lanes r))) = map fst (lanes r) \<and>
         map (\<lambda>kl. estimated_position (snd kl))
             (snd (tick_lanes cfg (fuel_simulation_enabled r) now (lanes r))) =
           map (\<lambda>kl. tick_position cfg now (snd kl)) (lanes r)"
    using h by (intro tick_lanes_positions) simp
  obtain ls2 where tl: "tick_lanes cfg (fuel_simulation_enabled r) now (lanes r) = (None, ls2)"
    using t by (cases "tick_lanes cfg (fuel_simulation_enabled r) now (lanes r)") auto
  have k2: "map fst ls2 = map fst (lanes r)"
    and p2: "map (\<lambda>kl. estimated_position (snd kl)) ls2 =
               map (\<lambda>kl. tick_position cfg now (snd kl)) (lanes r)"
    using t unfolding tl by simp_all
  let ?r2 = "r\<lparr>elapsed_time_ms := py_int ((now - st) * 1000), lanes := ls2\<rparr>"
  let ?e2 = "e\<lparr>current_race := Some ?r2\<rparr>"
  have tk: "tick cfg e now =
              (if time_limit_reached ?r2 then (None, finish_race ?e2)
               else if py_int (now * 10) mod 5 = 0 then (None, broadcast_state ?e2)
               else (None, ?e2))"
    using h by (simp add: tick_def Let_def tl)
  have f: "lanes_of (finish_race ?e2) = fst (finish_lanes ls2 (finish_order r))"
    using lanes_of_finish_race [of ?e2 ?r2] by simp
  have l2: "lanes_of ?e2 = ls2" by (simp add: lanes_of_def)
  show "fst (tick cfg e now) = None" unfolding tk by simp
  show "map fst (lanes_of (snd (tick cfg e now))) = map fst (lanes r)"
    unfolding tk using k2 f l2 finish_lanes_positions [of ls2 "finish_order r"]
    by simp
  show "map (\<lambda>kl. estimated_position (snd kl)) (lanes_of (snd (tick cfg e now))) =
        map (\<lambda>kl. tick_position cfg now (snd kl)) (lanes r)"
    unfolding tk using p2 f l2 finish_lanes_positions [of ls2 "finish_order r"]
    by simp
qed

text \<open>Claim C6, amended, at the tick at 13 of the race started at 10 with lane 1 at power 50.\<close>

theorem C6_position_estimate_witness:
  "map (\<lambda>kl. estimated_position (snd kl))
       (lanes_of (snd (tick \<lparr>sim_base_lap_time_ms = 5000\<rparr>
                         (set_power (started_race 3 10) 1 50) 13))) = [0.3, 0]"
  using C6_position_estimate [where e = "set_power (started_race 3 10) 1 50"
      and cfg = "\<lparr>sim_base_lap_time_ms = 5000\<rparr>" and st = 10 and now = 13
      and r = "\<lparr>race_id = 1, track_id = 1, mode = ''race_laps'', target_laps = 3,
           time_limit_seconds = None, fuel_simulation_enabled = False,
           lanes = [(1, (new_lane 1 10)\<lparr>last_lap_timestamp := 10, power_level := 50\<rparr>),
                    (2, (new_lane 2 20)\<lparr>last_lap_timestamp := 10\<rparr>)],
           state = RUNNING, start_time = Some 10, elapsed_time_ms = 0,
           countdown_remaining = 1, finish_order = []\<rparr>"]
    powered_race_current
  by (simp add: tick_position_def dead_reckoning_def py_fmod_def new_lane_def)

subsection \<open>C7\<close>

text \<open>
  Claim C7, as stated, fails: a second \<^verbatim>\<open>stop\<close> is observable, since it emits
  another \<^verbatim>\<open>race:cancelled\<close> event.
\<close>

theorem C7_stop_repeated_counterexample:
  "events (stop (stop (init_engine\<lparr>current_race := Some (new_race 1 1 ''race_laps'' 3 None False [])\<rparr>)))
     \<noteq> events (stop (init_engine\<lparr>current_race := Some (new_race 1 1 ''race_laps'' 3 None False [])\<rparr>))"
  by (simp add: stop_def init_engine_def new_race_def Let_def)

text \<open>
  Claim C7, amended: \<^verbatim>\<open>stop\<close> cancels the tick task and, when there is a race, sets
  its state to FINISHED whatever it was, changes nothing else of it, and emits one
  \<^verbatim>\<open>race:cancelled\<close> event; without a race it only cancels the tick task. On a race
  that is already FINISHED, and so on every further \<^verbatim>\<open>stop\<close>, the race and the tick
  task stay as they are, and one more \<^verbatim>\<open>race:cancelled\<close> event is emitted.
\<close>

theorem C7_stop_forces_finished:
  "(current_race e = Some r \<longrightarrow>
      stop e = \<lparr>current_race = Some (r\<lparr>state := FINISHED\<rparr>),
                tick_task = cancel (tick_task e),
                events = events e @ [(race_id r, RaceCancelled (race_id r))]\<rparr>) \<and>
   (current_race e = None \<longrightarrow>
      stop e = \<lparr>current_race = None, tick_task = cancel (tick_task e), events = events e\<rparr>) \<and>
   tick_task (stop e) \<noteq> Some Pending \<and>
   (current_race e = Some r \<and> state r = FINISHED \<longrightarrow>
      current_race (stop e) = current_race e \<and>
      events (stop e) = events e @ [(race_id r, RaceCancelled (race_id r))]) \<and>
   current_race (stop (stop e)) = current_race (stop e) \<and>
   tick_task (stop (stop e)) = tick_task (stop e)"
  by (cases e; cases "tick_task e")
     (auto simp: stop_def Let_def cancel_def broadcast_to_race_def split: option.splits)

text \<open>Claim C7, amended, at the race started at 100.\<close>

theorem C7_stop_forces_finished_witness:
  "map_option state (current_race (stop (started_race 3 100))) = Some FINISHED \<and>
   tick_task (stop (started_race 3 100)) = Some Cancelled \<and>
   events (stop (started_race 3 100)) = events (started_race 3 100) @ [(1, RaceCancelled 1)]"
  using C7_stop_forces_finished [where e = "started_race 3 100"
      and r = "\<lparr>race_id = 1, track_id = 1, mode = ''race_laps'', target_laps = 3,
           time_limit_seconds = None, fuel_simulation_enabled = False,
           lanes = [(1, (new_lane 1 10)\<lparr>last_lap_timestamp := 100\<rparr>),
                    (2, (new_lane 2 20)\<lparr>last_lap_timestamp := 100\<rparr>)],
           state = RUNNING, start_time = Some 100, elapsed_time_ms = 0,
           countdown_remaining = 1, finish_order = []\<rparr>"]
    started_race_current [of 3 100] started_race_tick_task [of 3 100]
  by (simp add: cancel_def)

subsection \<open>C8\<close>

text \<open>
  Claim C8: when the current race exists and is RUNNING, \<^verbatim>\<open>setup_race\<close> raises the
  \<^verbatim>\<open>RuntimeError\<close> of line 94 and leaves the engine as it was; in every other case it
  returns and installs a new race in state IDLE with the given settings, an empty finish
  order, and one new lane for each lane number of the participants.
\<close>

theorem C8_setup_conflict:
  "((\<exists>r0. current_race e = Some r0 \<and> state r0 = RUNNING) \<longrightarrow>
      setup_race e rid tid ps md tgt tlim fuel =
        (Inl (RuntimeError ''Cannot setup new race while another is running''), e)) \<and>
   (\<not> (\<exists>r0. current_race e = Some r0 \<and> state r0 = RUNNING) \<longrightarrow>
      (\<exists>r. setup_race e rid tid ps md tgt tlim fuel = (Inr r, e\<lparr>current_race := Some r\<rparr>) \<and>
           race_id r = rid \<and> track_id r = tid \<and> mode r = md \<and> target_laps r = tgt \<and>
           time_limit_seconds r = tlim \<and> fuel_simulation_enabled r = fuel \<and>
           state r = IDLE \<and> start_time r = None \<and> elapsed_time_ms r = 0 \<and>
           countdown_remaining r = 5 \<and> finish_order r = [] \<and>
           fst ` set (lanes r) = p_lane ` set ps \<and>
           (\<forall>k l. map_of (lanes r) k = Some l \<longrightarrow> (\<exists>c. l = new_lane k c))))"
  by (auto simp: setup_race_def is_running_def new_race_def Let_def build_lanes_keys
        build_lanes_map_of split: option.splits)

text \<open>Claim C8 at an engine whose race is IDLE, and at one whose race is RUNNING.\<close>

theorem C8_setup_conflict_witness:
  "setup_race (init_engine\<lparr>current_race := Some (new_race 1 1 ''race_laps'' 3 None False [])\<rparr>)
      2 1 [\<lparr>p_lane = 1, p_car_id = 10\<rparr>] ''race_laps'' 3 None False
    = (Inr (new_race 2 1 ''race_laps'' 3 None False [(1, new_lane 1 10)]),
       init_engine\<lparr>current_race := Some (new_race 2 1 ''race_laps'' 3 None False [(1, new_lane 1 10)])\<rparr>)
   \<and> setup_race (init_engine\<lparr>current_race := Some ((new_race 1 1 ''race_laps'' 3 None False [])\<lparr>state := RUNNING\<rparr>)\<rparr>)
      2 1 [\<lparr>p_lane = 1, p_car_id = 10\<rparr>] ''race_laps'' 3 None False
    = (Inl (RuntimeError ''Cannot setup new race while another is running''),
       init_engine\<lparr>current_race := Some ((new_race 1 1 ''race_laps'' 3 None False [])\<lparr>state := RUNNING\<rparr>)\<rparr>)"
  using C8_setup_conflict [of "init_engine\<lparr>current_race := Some (new_race 1 1 ''race_laps'' 3 None False [])\<rparr>"
      2 1 "[\<lparr>p_lane = 1, p_car_id = 10\<rparr>]" "''race_laps''" 3 None False]
    C8_setup_conflict [of "init_engine\<lparr>current_race := Some ((new_race 1 1 ''race_laps'' 3 None False [])\<lparr>state := RUNNING\<rparr>)\<rparr>"
      2 1 "[\<lparr>p_lane = 1, p_car_id = 10\<rparr>]" "''race_laps''" 3 None False]
  by (simp add: setup_race_def is_running_def new_race_def init_engine_def Let_def)

subsection \<open>C9\<close>

text \<open>
  Claim C9, as stated, fails: with the race started at 100 and crossings of lane 1 at
  1.2 s, 2.3 s and 3.1 s after the start, the lap times are 1200, 1100 and 800 ms, which
  differ from 1100, 900 and 800 by 100 ms and more.
\<close>

theorem C9_scenario_counterexample:
  "map_option lap_times_ms
      (lane_of (record_laps (started_race 3 100) 1 [100 + 1.2, 100 + 2.3, 100 + 3.1]) 1)
     = Some [1200, 1100, 800] \<and>
   \<not> list_all2 (\<lambda>a b. \<bar>a - b\<bar> < 100) [1200, 1100, 800] [1100, 900, 800 :: int]"
  by (simp add: lane_of_def lanes_of_def started_race_current record_lap_def
        check_finished_def count_lap_def is_best_def debounced_def lap_time_of_def py_int_def
        new_lane_def Let_def all_finished_def)

text \<open>
  Claim C9, amended: in a 2-lane \<^verbatim>\<open>race_laps\<close> race with target 3 started at any
  clock reading \<open>s\<close>, crossings of lane 1 at 1.2 s, 2.3 s and 3.1 s after the start give
  \<^verbatim>\<open>lap_times_ms\<close> [1200, 1100, 800]; lane 1 is not finished after its second lap and
  finishes on its third, in position 1.
\<close>

theorem C9_scenario:
  "map_option (\<lambda>l. (lap_times_ms l, current_lap l, finished l, finish_position l))
      (lane_of (record_laps (started_race 3 s) 1 [s + 1.2, s + 2.3, s + 3.1]) 1)
     = Some ([1200, 1100, 800], 3, True, Some 1) \<and>
   map_option (\<lambda>l. (current_lap l, finished l, finish_position l))
      (lane_of (record_laps (started_race 3 s) 1 [s + 1.2, s + 2.3]) 1)
     = Some (2, False, None)"
  by (simp add: lane_of_def lanes_of_def started_race_current record_lap_def
        check_finished_def count_lap_def is_best_def debounced_def lap_time_of_def py_int_def
        new_lane_def Let_def all_finished_def)

text \<open>Claim C9, amended, at the start time 250.\<close>

theorem C9_scenario_witness:
  "map_option (\<lambda>l. (lap_times_ms l, current_lap l, finished l, finish_position l))
      (lane_of (record_laps (started_race 3 250) 1 [251.2, 252.3, 253.1]) 1)
     = Some ([1200, 1100, 800], 3, True, Some 1)"
  using C9_scenario [of 250] by simp

subsection \<open>C10\<close>

text \<open>
  Claim C10: a counted lap emits one \<^verbatim>\<open>race:lap\<close> event, whose
  \<^verbatim>\<open>is_best_lap\<close> flag is true exactly when the lane had no best lap or the lap time is
  strictly below it; only then does \<^verbatim>\<open>best_lap_time_ms\<close> change. A lap time equal to
  the best leaves it unchanged, with the flag false. In every engine reached by calls the
  first counted lap of a lane (\<^verbatim>\<open>current_lap\<close> 0) carries the flag true.
\<close>

theorem C10_best_lap_strict:
  assumes "current_race e = Some r" "state r = RUNNING" "map_of (lanes r) lane = Some ls"
    "\<not> finished ls" "\<not> debounced ls now"
  shows "\<exists>ls' flag rest.
           lane_of (record_lap e lane now) lane = Some ls' \<and>
           events (record_lap e lane now) =
             events e @
               (race_id r, RaceLap (race_id r) (car_id ls) lane (current_lap ls + 1)
                             (lap_time_of ls now) flag) # rest \<and>
           (\<forall>ev \<in> set rest. \<forall>a b c d t f. snd ev \<noteq> RaceLap a b c d t f) \<and>
           (best_lap_time_ms ls = Some (lap_time_of ls now) \<longrightarrow>
              best_lap_time_ms ls' = Some (lap_time_of ls now) \<and> \<not> flag) \<and>
           (\<forall>b. best_lap_time_ms ls = Some b \<longrightarrow>
              (flag \<longleftrightarrow> lap_time_of ls now < b) \<and>
              best_lap_time_ms ls' = Some (if lap_time_of ls now < b then lap_time_of ls now else b)) \<and>
           (best_lap_time_ms ls = None \<longrightarrow>
              flag \<and> best_lap_time_ms ls' = Some (lap_time_of ls now)) \<and>
           ((\<exists>cfg cs. e = run cfg cs init_engine) \<and> current_lap ls = 0 \<longrightarrow> flag)"
proof -
  let ?t = "lap_time_of ls now"
  let ?c = "count_lap ls now"
  let ?r1 = "r\<lparr>lanes := AList.update lane ?c (lanes r)\<rparr>"
  let ?e1 = "broadcast_to_race (e\<lparr>current_race := Some ?r1\<rparr>) (race_id r)
               (RaceLap (race_id r) (car_id ls) lane (current_lap ls + 1) ?t (is_best ls ?t))"
  have eq: "record_lap e lane now = check_finished ?e1 ?r1 lane ?c"
    by (rule record_lap_counted [OF assms])
  obtain ls' where l: "lane_of (record_lap e lane now) lane = Some ls'"
    and b: "best_lap_time_ms ls' = (if is_best ls ?t then Some ?t else best_lap_time_ms ls)"
    using record_lap_counted_lane [OF assms] by blast
  obtain rest where ev: "events (record_lap e lane now) = events ?e1 @ rest"
    and nl: "\<forall>ev \<in> set rest. \<forall>a b c d t f. snd ev \<noteq> RaceLap a b c d t f"
    unfolding eq using events_check_finished [of ?e1 ?r1 lane ?c] by blast
  have first: "(\<exists>cfg cs. e = run cfg cs init_engine) \<and> current_lap ls = 0 \<longrightarrow> is_best ls ?t"
  proof
    assume h: "(\<exists>cfg cs. e = run cfg cs init_engine) \<and> current_lap ls = 0"
    then obtain cfg cs where e: "e = run cfg cs init_engine" by blast
    have "lane_of e lane = Some ls"
      using assms(1,3) by (simp add: lane_of_def lanes_of_def)
    then have "lane_ok ls" unfolding e by (rule reachable_lane_ok)
    then have "best_lap_time_ms ls = None"
      using h by (simp add: lane_ok_def laps_consistent_def)
    then show "is_best ls ?t" by (simp add: is_best_def)
  qed
  have ev': "events (record_lap e lane now) =
               events e @ (race_id r, RaceLap (race_id r) (car_id ls) lane (current_lap ls + 1)
                             ?t (is_best ls ?t)) # rest"
    using ev by simp
  have eqs: "best_lap_time_ms ls = Some ?t \<longrightarrow> best_lap_time_ms ls' = Some ?t \<and> \<not> is_best ls ?t"
    "\<forall>b. best_lap_time_ms ls = Some b \<longrightarrow>
              (is_best ls ?t \<longleftrightarrow> ?t < b) \<and>
              best_lap_time_ms ls' = Some (if ?t < b then ?t else b)"
    "best_lap_time_ms ls = None \<longrightarrow> is_best ls ?t \<and> best_lap_time_ms ls' = Some ?t"
    using b by (simp_all add: is_best_def)
  show ?thesis
    apply (rule exI [of _ ls'])
    apply (rule exI [of _ "is_best ls ?t"])
    apply (rule exI [of _ rest])
    using l ev' nl first eqs by blast
qed

text \<open>Claim C10 at a second lap of 1200 ms after a first lap of 1200 ms.\<close>

theorem C10_best_lap_strict_witness:
  "\<exists>ls' rest.
     lane_of (record_lap (record_lap (started_race 3 100) 1 101.2) 1 102.4) 1 = Some ls' \<and>
     events (record_lap (record_lap (started_race 3 100) 1 101.2) 1 102.4) =
       events (record_lap (started_race 3 100) 1 101.2) @
         (1, RaceLap 1 10 1 2 1200 False) # rest \<and>
     best_lap_time_ms ls' = Some 1200"
proof -
  let ?ls = "\<lparr>lane_number = 1, car_id = 10, power_level = 0, current_lap = 1,
                         lap_times_ms = [1200], best_lap_time_ms = Some 1200,
                         total_time_ms = 1200, last_lap_timestamp = 101.2,
                         estimated_position = 0, fuel_level = 100, finished = False,
                         finish_position = None\<rparr>"
  have t: "lap_time_of ?ls 102.4 = 1200" by (simp add: lap_time_of_def py_int_def)
  have d: "\<not> debounced ?ls 102.4" by (simp add: debounced_def)
  obtain ls' flag rest where
    "lane_of (record_lap (record_lap (started_race 3 100) 1 101.2) 1 102.4) 1 = Some ls'"
    "events (record_lap (record_lap (started_race 3 100) 1 101.2) 1 102.4) =
       events (record_lap (started_race 3 100) 1 101.2) @
         (1, RaceLap 1 10 1 (1 + 1) (lap_time_of ?ls 102.4) flag) # rest"
    "best_lap_time_ms ?ls = Some (lap_time_of ?ls 102.4) \<longrightarrow>
              best_lap_time_ms ls' = Some (lap_time_of ?ls 102.4) \<and> \<not> flag"
    using C10_best_lap_strict [OF first_lap_current, where lane = 1 and ls = ?ls and now = "102.4"] d
    by auto
  then show ?thesis
    unfolding t by (intro exI [of _ ls'] exI [of _ rest]) simp
qed

end
